theory Spec2Isabelle
  imports Complex_Main "HOL-Library.Word" "HOL-Library.List_Lexorder"
begin

section \<open>Values of the host language\<close>

text \<open>
  A JavaScript string is a sequence of UTF-16 code units: \<open>length\<close>, \<open>slice\<close>,
  \<open>split\<close> and the default \<open>sort\<close> all count and compare code units. A finite
  Number is modelled by the real it denotes; NaN and the infinities are outside the model
  (\<open>Infinity\<close> is written out where the source uses it as a default). Cost and cost
  efficiency are values of arithmetic expressions, which the host evaluates with
  rounding after every operation: their definitions take the host's operations as a
  parameter, and \<open>ieee754\<close> below is the binary64 instance of it.
\<close>

type_synonym jsstring = "16 word list"

definition utf16 :: "string \<Rightarrow> jsstring" where
  "utf16 s = map of_char s"

definition SLASH :: "16 word" where
  "SLASH = 0x2F"

definition ELLIPSIS :: jsstring where
  \<comment> \<open>the three full stops \<open>...\<close> appended by both truncations\<close>
  "ELLIPSIS = [0x2E, 0x2E, 0x2E]"

definition EM_DASH :: jsstring where
  \<comment> \<open>the em dash U+2014 used as placeholder, one code unit\<close>
  "EM_DASH = [0x2014]"

datatype error = TypeError

section \<open>Data model (api.ts)\<close>

record RunRow =
  run_id :: jsstring
  status :: jsstring
  dataset :: jsstring
  prompt_version :: jsstring
  schema_version :: jsstring
  harness :: jsstring
  provider :: jsstring
  model :: jsstring
  total_files :: real
  completed_files :: real
  avg_score :: "real option"
  total_duration_ms :: "real option"
  started_at :: jsstring
  finished_at :: "jsstring option"
  total_input_tokens :: "real option"
  total_output_tokens :: "real option"
  prompt_preview :: "jsstring option"

record costPer1M =
  input_per1M :: real
  output_per1M :: real

record CatalogModel =
  m_provider :: jsstring
  m_id :: jsstring
  displayName :: jsstring
  family :: "jsstring option"
  supportsStructuredOutput :: bool
  active :: bool
  releaseDate :: "jsstring option"
  costPer1MTokens :: "costPer1M option"
  contextWindow :: "real option"
  maxOutput :: "real option"

section \<open>The host's Map\<close>

text \<open>
  A JavaScript \<open>Map\<close> keeps its entries in insertion order; \<open>set\<close> on a key that is
  present replaces the value in place, \<open>set\<close> on a new key appends. It is modelled by an
  association list with unique keys.
\<close>

type_synonym ('k, 'v) jsmap = "('k \<times> 'v) list"

fun Map_get :: "('k, 'v) jsmap \<Rightarrow> 'k \<Rightarrow> 'v option" where
  "Map_get [] k = None"
| "Map_get ((k', v) # rest) k = (if k' = k then Some v else Map_get rest k)"

fun Map_set :: "'k \<Rightarrow> 'v \<Rightarrow> ('k, 'v) jsmap \<Rightarrow> ('k, 'v) jsmap" where
  "Map_set k v [] = [(k, v)]"
| "Map_set k v ((k', v') # rest) =
     (if k' = k then (k, v) # rest else (k', v') # Map_set k v rest)"

definition Map_values :: "('k, 'v) jsmap \<Rightarrow> 'v list" where
  "Map_values mp = map snd mp"

definition Map_keys :: "('k, 'v) jsmap \<Rightarrow> 'k list" where
  "Map_keys mp = map fst mp"

section \<open>Catalog index (DashboardPage, catalog effect)\<close>

text \<open>
  \<^verbatim>\<open>const map = new Map<string, CatalogModel>();
  for (const m of catalog.models) map.set(m.id, m);\<close>
\<close>

definition buildIndex :: "CatalogModel list \<Rightarrow> (jsstring, CatalogModel) jsmap" where
  "buildIndex models = foldl (\<lambda>mp m. Map_set (m_id m) m mp) [] models"

section \<open>Host functions on numbers, strings and arrays\<close>

definition coalesce :: "'a option \<Rightarrow> 'a \<Rightarrow> 'a" where
  \<comment> \<open>\<^verbatim>\<open>v ?? d\<close>\<close>
  "coalesce v d = (case v of None \<Rightarrow> d | Some x \<Rightarrow> x)"

definition Math_round :: "real \<Rightarrow> real" where
  \<comment> \<open>\<^verbatim>\<open>Math.round\<close>: nearest integer, halves towards \<open>+\<infinity>\<close>\<close>
  "Math_round x = of_int \<lfloor>x + 1 / 2\<rfloor>"

definition toFixed_scaled :: "real \<Rightarrow> nat \<Rightarrow> nat" where
  \<comment> \<open>the integer \<open>n\<close> of \<^verbatim>\<open>Number.prototype.toFixed\<close>: \<open>n / 10^f\<close> is nearest to \<open>|x|\<close>,
      the larger \<open>n\<close> on a tie\<close>
  "toFixed_scaled x f = nat \<lfloor>\<bar>x\<bar> * 10 ^ f + 1 / 2\<rfloor>"

definition toFixed_number :: "real \<Rightarrow> nat \<Rightarrow> real" where
  \<comment> \<open>the decimal value written by \<^verbatim>\<open>x.toFixed(f)\<close>; from \<open>10^21\<close> on the host writes
      the number itself, in exponent notation\<close>
  "toFixed_number x f =
     (if 10 ^ 21 \<le> \<bar>x\<bar> then x
      else if x < 0 then - (real (toFixed_scaled x f) / 10 ^ f)
      else real (toFixed_scaled x f) / 10 ^ f)"

fun decimal :: "nat \<Rightarrow> jsstring" where
  "decimal n = (if n < 10 then [0x30 + of_nat n]
                else decimal (n div 10) @ [0x30 + of_nat (n mod 10)])"

declare decimal.simps [simp del]

definition toFixed :: "(real \<Rightarrow> jsstring) \<Rightarrow> real \<Rightarrow> nat \<Rightarrow> jsstring" where
  \<comment> \<open>\<^verbatim>\<open>x.toFixed(f)\<close>: plain decimal notation below \<open>10^21\<close>; from there on the
      host's \<open>toString\<close>, a parameter\<close>
  "toFixed toString x f =
     (if 10 ^ 21 \<le> \<bar>x\<bar> then toString x
      else (let ds = decimal (toFixed_scaled x f);
                m = replicate (Suc f - length ds) 0x30 @ ds;
                k = length m;
                body = (if f = 0 then m else take (k - f) m @ [0x2E] @ drop (k - f) m)
            in (if x < 0 then [0x2D] else []) @ body))"

subsection \<open>Rounded arithmetic\<close>

text \<open>
  The host computes \<open>+\<close>, \<open>*\<close> and \<open>/\<close> on doubles and reads a decimal numeral as the
  nearest double. \<open>binary64\<close> rounds a real to the nearest double, ties to the even
  significand, with gradual underflow; results beyond the largest double are outside the
  model.
\<close>

record host_arith =
  fadd :: "real \<Rightarrow> real \<Rightarrow> real"
  fmul :: "real \<Rightarrow> real \<Rightarrow> real"
  fdiv :: "real \<Rightarrow> real \<Rightarrow> real"
  fnum :: "real \<Rightarrow> real"

definition pow2 :: "int \<Rightarrow> real" where
  "pow2 e = (if 0 \<le> e then 2 ^ nat e else 1 / 2 ^ nat (- e))"

fun ilog2 :: "nat \<Rightarrow> real \<Rightarrow> int" where
  \<comment> \<open>the binary exponent of \<open>a > 0\<close>, searched in at most the given number of steps\<close>
  "ilog2 0 a = 0"
| "ilog2 (Suc k) a =
     (if 2 \<le> a then ilog2 k (a / 2) + 1
      else if a < 1 then ilog2 k (a * 2) - 1
      else 0)"

definition round_half_even :: "real \<Rightarrow> int" where
  "round_half_even q =
     (let f = \<lfloor>q\<rfloor>; r = q - of_int f
      in if r < 1 / 2 then f
         else if 1 / 2 < r then f + 1
         else if even f then f else f + 1)"

definition binary64 :: "real \<Rightarrow> real" where
  \<comment> \<open>53 significant bits; the exponent is not taken below \<open>-1022\<close>, where doubles are
      spaced \<open>2^-1074\<close> apart\<close>
  "binary64 x =
     (if x = 0 then 0
      else (let a = \<bar>x\<bar>;
                e = max (ilog2 1100 a) (- 1022);
                u = pow2 (e - 52);
                n = round_half_even (a / u)
            in sgn x * (of_int n * u)))"

definition ieee754 :: host_arith where
  "ieee754 = \<lparr> fadd = (\<lambda>a b. binary64 (a + b)),
               fmul = (\<lambda>a b. binary64 (a * b)),
               fdiv = (\<lambda>a b. binary64 (a / b)),
               fnum = binary64 \<rparr>"

fun split :: "'a \<Rightarrow> 'a list \<Rightarrow> 'a list list" where
  "split sep [] = [[]]"
| "split sep (c # cs) =
     (if c = sep then [] # split sep cs
      else (case split sep cs of
              [] \<Rightarrow> [[c]]
            | seg # segs \<Rightarrow> (c # seg) # segs))"

definition slice0 :: "'a list \<Rightarrow> int \<Rightarrow> 'a list" where
  \<comment> \<open>\<^verbatim>\<open>s.slice(0, e)\<close>: a negative end counts from the end of the string\<close>
  "slice0 s e = (if e < 0 then take (nat (int (length s) + e)) s else take (nat e) s)"

definition isWhiteSpace :: "16 word \<Rightarrow> bool" where
  \<comment> \<open>the white space and line terminator code units that \<^verbatim>\<open>trimEnd\<close> removes\<close>
  "isWhiteSpace c \<longleftrightarrow>
     c \<in> {0x9, 0xA, 0xB, 0xC, 0xD, 0x20, 0xA0, 0x1680, 0x2028, 0x2029, 0x202F, 0x205F,
          0x3000, 0xFEFF} \<or> (0x2000 \<le> c \<and> c \<le> 0x200A)"

definition trimEnd :: "jsstring \<Rightarrow> jsstring" where
  "trimEnd s = rev (dropWhile isWhiteSpace (rev s))"

fun indexOf :: "'a \<Rightarrow> 'a list \<Rightarrow> int" where
  "indexOf c [] = - 1"
| "indexOf c (x # xs) =
     (if x = c then 0 else (let i = indexOf c xs in if i < 0 then - 1 else i + 1))"

fun insert_with :: "('a \<Rightarrow> 'a \<Rightarrow> real) \<Rightarrow> 'a \<Rightarrow> 'a list \<Rightarrow> 'a list" where
  "insert_with cmp x [] = [x]"
| "insert_with cmp x (y # ys) =
     (if cmp x y \<le> 0 then x # y # ys else y # insert_with cmp x ys)"

definition sort_with :: "('a \<Rightarrow> 'a \<Rightarrow> real) \<Rightarrow> 'a list \<Rightarrow> 'a list" where
  \<comment> \<open>\<^verbatim>\<open>Array.prototype.sort(cmp)\<close> for a consistent comparator; the sort is stable,
      so elements that compare equal keep their order\<close>
  "sort_with cmp xs = foldr (insert_with cmp) xs []"

definition Set_from :: "'a list \<Rightarrow> 'a list" where
  \<comment> \<open>\<^verbatim>\<open>Array.from(new Set(xs))\<close>: the distinct elements in order of first occurrence\<close>
  "Set_from xs = foldl (\<lambda>acc x. if x \<in> set acc then acc else acc @ [x]) [] xs"

fun reduce1 :: "('a \<Rightarrow> 'a \<Rightarrow> 'a) \<Rightarrow> 'a list \<Rightarrow> error + 'a" where
  \<comment> \<open>\<^verbatim>\<open>xs.reduce(f)\<close> with no initial value: a TypeError on the empty array\<close>
  "reduce1 f [] = Inl TypeError"
| "reduce1 f (x # xs) = Inr (foldl f x xs)"

section \<open>Derived metrics\<close>

subsection \<open>getLabel (ComparisonCharts.tsx)\<close>

definition getLabel :: "RunRow \<Rightarrow> jsstring" where
  "getLabel run =
     (let m = (if SLASH \<in> set (model run) then last (split SLASH (model run)) else model run)
      in if length m > 28 then slice0 m 26 @ ELLIPSIS else m)"

subsection \<open>truncatePrompt (DashboardPage)\<close>

definition truncatePrompt :: "jsstring option \<Rightarrow> int \<Rightarrow> jsstring" where
  \<comment> \<open>\<open>max\<close> defaults to 72 in the source; the table passes 100\<close>
  "truncatePrompt text mx =
     (case text of
        None \<Rightarrow> EM_DASH
      | Some t \<Rightarrow>
          if t = [] then EM_DASH
          else if int (length t) \<le> mx then t
          else trimEnd (slice0 t mx) @ ELLIPSIS)"

subsection \<open>computeRunCost (ComparisonCharts.tsx) and formatCost (DashboardPage)\<close>

definition computeRunCost :: "host_arith \<Rightarrow> RunRow \<Rightarrow> CatalogModel option \<Rightarrow> real option" where
  "computeRunCost h run mdl =
     (case mdl of
        None \<Rightarrow> None
      | Some m \<Rightarrow>
          (case costPer1MTokens m of
             None \<Rightarrow> None
           | Some price \<Rightarrow>
               (let inp = coalesce (total_input_tokens run) 0;
                    out = coalesce (total_output_tokens run) 0
                in if inp = 0 \<and> out = 0 then None
                   else Some (fadd h (fmul h (fdiv h inp 1000000) (input_per1M price))
                                     (fmul h (fdiv h out 1000000) (output_per1M price))))))"

definition formatCost ::
  "host_arith \<Rightarrow> (real \<Rightarrow> jsstring) \<Rightarrow> RunRow \<Rightarrow> CatalogModel option \<Rightarrow> jsstring" where
  "formatCost h toString run mdl =
     (case mdl of
        None \<Rightarrow> EM_DASH
      | Some m \<Rightarrow>
          (case costPer1MTokens m of
             None \<Rightarrow> EM_DASH
           | Some price \<Rightarrow>
               (let inputTokens = coalesce (total_input_tokens run) 0;
                    outputTokens = coalesce (total_output_tokens run) 0
                in if inputTokens = 0 \<and> outputTokens = 0 then EM_DASH
                   else (let cost = fadd h (fmul h (fdiv h inputTokens 1000000) (input_per1M price))
                                           (fmul h (fdiv h outputTokens 1000000) (output_per1M price))
                         in if cost < fnum h (1 / 100) then 0x24 # toFixed toString cost 4
                            else if cost < 1 then 0x24 # toFixed toString cost 3
                            else 0x24 # toFixed toString cost 2))))"

section \<open>Comparison charts (ComparisonCharts.tsx)\<close>

text \<open>
  Each chart is modelled by the data series it computes; bar colours, the axes and the
  rendering of the series are presentation and are left out.
\<close>

subsection \<open>getModelLogoUrl (ModelBadge.tsx)\<close>

definition getProviderSlug :: "CatalogModel \<Rightarrow> jsstring" where
  "getProviderSlug m =
     (let slash = indexOf SLASH (m_id m)
      in if slash > 0 then slice0 (m_id m) slash else m_provider m)"

definition getModelLogoUrl :: "CatalogModel \<Rightarrow> jsstring" where
  "getModelLogoUrl m =
     utf16 ''https://models.dev/logos'' @ [SLASH] @ getProviderSlug m @ utf16 ''.svg''"

subsection \<open>Score and duration bars\<close>

definition ScoreComparisonChart :: "RunRow list \<Rightarrow> (jsstring \<times> real) list" where
  "ScoreComparisonChart rs =
     map (\<lambda>r. (getLabel r, (case avg_score r of None \<Rightarrow> 0 | Some s \<Rightarrow> Math_round (s * 100)))) rs"

definition DurationComparisonChart :: "RunRow list \<Rightarrow> (jsstring \<times> real) list" where
  "DurationComparisonChart rs =
     map (\<lambda>r. (getLabel r,
                (case total_duration_ms r of None \<Rightarrow> 0 | Some d \<Rightarrow> toFixed_number (d / 1000) 1))) rs"

subsection \<open>Cost against score\<close>

record cost_point =
  cp_name :: jsstring
  cp_displayName :: jsstring
  cp_cost :: real
  cp_score :: real
  cp_logoUrl :: "jsstring option"

definition costPoint ::
  "host_arith \<Rightarrow> (jsstring, CatalogModel) jsmap \<Rightarrow> RunRow \<Rightarrow> cost_point option" where
  "costPoint h modelMap r =
     (let mdl = Map_get modelMap (model r)
      in case computeRunCost h r mdl of
           None \<Rightarrow> None
         | Some cost \<Rightarrow>
             (case avg_score r of
                None \<Rightarrow> None
              | Some s \<Rightarrow>
                  Some \<lparr> cp_name = getLabel r,
                         cp_displayName = (case mdl of None \<Rightarrow> getLabel r | Some m \<Rightarrow> displayName m),
                         cp_cost = fnum h (toFixed_number cost 4),
                         cp_score = Math_round (fmul h s 100),
                         cp_logoUrl = map_option getModelLogoUrl mdl \<rparr>))"

definition CostVsPerformanceChart ::
  "host_arith \<Rightarrow> RunRow list \<Rightarrow> (jsstring, CatalogModel) jsmap \<Rightarrow> cost_point list option" where
  "CostVsPerformanceChart h rs modelMap =
     (let data = List.map_filter (costPoint h modelMap) rs
      in if length data < 2 then None else Some data)"

subsection \<open>Score by release date\<close>

record release_point =
  rp_score :: real
  rp_releaseDate :: jsstring
  rp_name :: jsstring
  rp_logoUrl :: jsstring

definition bestByModel_step ::
  "(jsstring, CatalogModel) jsmap \<Rightarrow> (jsstring, release_point) jsmap \<Rightarrow> RunRow
     \<Rightarrow> (jsstring, release_point) jsmap" where
  \<comment> \<open>one iteration of \<^verbatim>\<open>for (const r of runs)\<close>; \<^verbatim>\<open>continue\<close> leaves the map as it is\<close>
  "bestByModel_step modelMap bestByModel r =
     (case Map_get modelMap (model r) of
        None \<Rightarrow> bestByModel
      | Some m \<Rightarrow>
          (case releaseDate m of
             None \<Rightarrow> bestByModel
           | Some rd \<Rightarrow>
               if rd = [] then bestByModel
               else (case avg_score r of
                       None \<Rightarrow> bestByModel
                     | Some s \<Rightarrow>
                         (let fresh = \<lparr> rp_score = Math_round (s * 100), rp_releaseDate = rd,
                                        rp_name = displayName m, rp_logoUrl = getModelLogoUrl m \<rparr>
                          in case Map_get bestByModel (model r) of
                               None \<Rightarrow> Map_set (model r) fresh bestByModel
                             | Some existing \<Rightarrow>
                                 if s > rp_score existing
                                 then Map_set (model r) fresh bestByModel
                                 else bestByModel))))"

definition bestByModel ::
  "(jsstring, CatalogModel) jsmap \<Rightarrow> RunRow list \<Rightarrow> (jsstring, release_point) jsmap" where
  "bestByModel modelMap rs = foldl (bestByModel_step modelMap) [] rs"

definition PerformanceByReleaseDateChart ::
  "(jsstring \<Rightarrow> jsstring \<Rightarrow> real) \<Rightarrow> RunRow list \<Rightarrow> (jsstring, CatalogModel) jsmap
     \<Rightarrow> release_point list option" where
  \<comment> \<open>\<open>localeCompare\<close> is the host's collation of two strings; the date label and the
      timestamp the host derives from each release date are left out\<close>
  "PerformanceByReleaseDateChart localeCompare rs modelMap =
     (let data = sort_with (\<lambda>a b. localeCompare (rp_releaseDate a) (rp_releaseDate b))
                   (Map_values (bestByModel modelMap rs))
      in if length data < 2 then None else Some data)"

definition compare_code_units :: "jsstring \<Rightarrow> jsstring \<Rightarrow> real" where
  \<comment> \<open>the order of code units, with which the host's collation agrees on ISO-8601 dates\<close>
  "compare_code_units a b = (if a < b then - 1 else if a = b then 0 else 1)"

subsection \<open>Cost efficiency\<close>

record efficiency_point =
  ep_name :: jsstring
  ep_efficiency :: real

definition efficiencyPoint ::
  "host_arith \<Rightarrow> (jsstring, CatalogModel) jsmap \<Rightarrow> RunRow \<Rightarrow> efficiency_point option" where
  "efficiencyPoint h modelMap r =
     (let mdl = Map_get modelMap (model r)
      in case computeRunCost h r mdl of
           None \<Rightarrow> None
         | Some cost \<Rightarrow>
             if cost = 0 then None
             else (case avg_score r of
                     None \<Rightarrow> None
                   | Some s \<Rightarrow>
                       (let scorePct = Math_round (fmul h s 100);
                            efficiency = fnum h (toFixed_number (fdiv h scorePct cost) 1)
                        in Some \<lparr> ep_name = getLabel r, ep_efficiency = efficiency \<rparr>)))"

definition CostEfficiencyChart ::
  "host_arith \<Rightarrow> RunRow list \<Rightarrow> (jsstring, CatalogModel) jsmap \<Rightarrow> efficiency_point list option" where
  "CostEfficiencyChart h rs modelMap =
     (let data = List.map_filter (efficiencyPoint h modelMap) rs
      in if length data < 2 then None
         else Some (sort_with (\<lambda>a b. ep_efficiency b - ep_efficiency a) data))"

subsection \<open>Summary cards\<close>

record summary =
  best :: RunRow
  fastest :: RunRow
  avgScore :: real
  run_count :: nat

definition le_or_Infinity :: "real option \<Rightarrow> real option \<Rightarrow> bool" where
  \<comment> \<open>\<^verbatim>\<open>(a ?? Infinity) <= (b ?? Infinity)\<close>\<close>
  "le_or_Infinity a b =
     (case b of
        None \<Rightarrow> True
      | Some y \<Rightarrow> (case a of None \<Rightarrow> False | Some x \<Rightarrow> x \<le> y))"

definition SummaryCards :: "RunRow list \<Rightarrow> error + summary" where
  "SummaryCards rs =
     (case reduce1 (\<lambda>a b. if coalesce (avg_score a) 0 \<ge> coalesce (avg_score b) 0 then a else b) rs of
        Inl e \<Rightarrow> Inl e
      | Inr b \<Rightarrow>
          (case reduce1 (\<lambda>a b. if le_or_Infinity (total_duration_ms a) (total_duration_ms b)
                                then a else b) rs of
             Inl e \<Rightarrow> Inl e
           | Inr f \<Rightarrow>
               Inr \<lparr> best = b, fastest = f,
                     avgScore = foldl (\<lambda>sum r. sum + coalesce (avg_score r) 0) 0 rs
                                  / real (length rs),
                     run_count = length rs \<rparr>))"

subsection \<open>ComparisonCharts\<close>

record comparison =
  cmp_summary :: summary
  cmp_score :: "(jsstring \<times> real) list"
  cmp_duration :: "(jsstring \<times> real) list"
  cmp_cost :: "cost_point list option"
  cmp_release :: "release_point list option"
  cmp_efficiency :: "efficiency_point list option"

definition ComparisonCharts ::
  "(jsstring \<Rightarrow> jsstring \<Rightarrow> real) \<Rightarrow> RunRow list \<Rightarrow> (jsstring, CatalogModel) jsmap
     \<Rightarrow> error + comparison" where
  \<comment> \<open>an error thrown by a child component unwinds the whole render; the per-file
      heat map, fed by a separate asynchronous fetch, is left out\<close>
  "ComparisonCharts localeCompare rs modelMap =
     (case SummaryCards rs of
        Inl e \<Rightarrow> Inl e
      | Inr s \<Rightarrow>
          Inr \<lparr> cmp_summary = s,
                cmp_score = ScoreComparisonChart rs,
                cmp_duration = DurationComparisonChart rs,
                cmp_cost = CostVsPerformanceChart ieee754 rs modelMap,
                cmp_release = PerformanceByReleaseDateChart localeCompare rs modelMap,
                cmp_efficiency = CostEfficiencyChart ieee754 rs modelMap \<rparr>)"

section \<open>Dashboard page\<close>

subsection \<open>Selection-to-visualisation resolver and the page's render\<close>

text \<open>
  The page's state cells are \<open>runs\<close>, \<open>loading\<close> and \<open>modelMap\<close>; \<open>selectedRows\<close> and
  \<open>filteredRows\<close> are the originals of the table library's selected and filtered row
  models. The table markup itself is left out of the rendered view.
\<close>

record page_state =
  runs :: "RunRow list"
  loading :: bool
  modelMap :: "(jsstring, CatalogModel) jsmap"
  selectedRows :: "RunRow list"
  filteredRows :: "RunRow list"

datatype page_view =
    LoadingResults
  | NoRunsFound
  | Dashboard "comparison option"

definition chartRuns :: "'a list \<Rightarrow> 'a list \<Rightarrow> 'a list" where
  \<comment> \<open>\<^verbatim>\<open>selectedRuns.length >= 2 ? selectedRuns : filteredRuns\<close>\<close>
  "chartRuns selectedRuns filteredRuns =
     (if length selectedRuns \<ge> 2 then selectedRuns else filteredRuns)"

definition DashboardPage ::
  "(jsstring \<Rightarrow> jsstring \<Rightarrow> real) \<Rightarrow> page_state \<Rightarrow> error + page_view" where
  "DashboardPage localeCompare st =
     (let cr = chartRuns (selectedRows st) (filteredRows st)
      in if loading st then Inr LoadingResults
         else if runs st = [] then Inr NoRunsFound
         else if length cr \<ge> 2
              then (case ComparisonCharts localeCompare cr (modelMap st) of
                      Inl e \<Rightarrow> Inl e
                    | Inr c \<Rightarrow> Inr (Dashboard (Some c)))
              else Inr (Dashboard None))"

definition rendered_state :: "page_state \<Rightarrow> bool" where
  \<comment> \<open>the states the page is rendered in: \<^verbatim>\<open>getRuns().then(setRuns).finally(() => setLoading(false))\<close>
      is the only writer of \<open>runs\<close> and \<open>loading\<close> and both updates are committed
      together, so no run is present while the page is loading; the table is built on
      \<^verbatim>\<open>data: runs\<close>, so its selected and filtered rows are rows of \<open>runs\<close>\<close>
  "rendered_state st \<longleftrightarrow>
     (loading st \<longrightarrow> runs st = [])
     \<and> set (selectedRows st) \<subseteq> set (runs st)
     \<and> set (filteredRows st) \<subseteq> set (runs st)"

definition comparison_rendered :: "error + page_view \<Rightarrow> bool" where
  "comparison_rendered v = (case v of Inr (Dashboard (Some c)) \<Rightarrow> True | _ \<Rightarrow> False)"

subsection \<open>ColumnFilter\<close>

text \<open>
  A column is seen through what the component reads from it: its id, its current filter
  value and the values of the column in the rows of its faceted row model. The filterable
  columns of the table hold strings, so \<^verbatim>\<open>String(v ?? "")\<close> is the value itself, or
  the empty string where it is missing.
\<close>

record column =
  col_id :: jsstring
  filterValue :: "jsstring option"
  facetedValues :: "jsstring option list"

record select_control =
  sel_value :: jsstring
  sel_options :: "(jsstring \<times> jsstring) list"

definition facetValues :: "column \<Rightarrow> jsstring list" where
  "facetValues col = sort (Set_from (map (\<lambda>v. coalesce v []) (facetedValues col)))"

definition ColumnFilter :: "column \<Rightarrow> select_control option" where
  "ColumnFilter col =
     (let vals = facetValues col
      in if length vals \<le> 1 then None
         else Some \<lparr> sel_value = coalesce (filterValue col) [],
                     sel_options = ([], utf16 ''All'') # map (\<lambda>v. (v, v)) vals \<rparr>)"

definition ColumnFilter_onChange :: "(jsstring option \<Rightarrow> 'r) \<Rightarrow> jsstring \<Rightarrow> 'r" where
  \<comment> \<open>\<^verbatim>\<open>(e) => column.setFilterValue(e.target.value || undefined)\<close>, with the table
      library's \<open>setFilterValue\<close> as a parameter\<close>
  "ColumnFilter_onChange setFilterValue v = setFilterValue (if v = [] then None else Some v)"

section \<open>Data access layer (api.ts)\<close>

text \<open>
  \<^verbatim>\<open>loadData\<close> is an async function with two suspension points. A call that finds the
  cache empty asks the host to fetch and suspends; when the response arrives it asks for
  the body and suspends again; when the body arrives it writes the cache and returns.
  The host's event loop interleaves the calls, so the module is modelled by a step
  function on the state of the cache and of every call made so far. The counters
  \<open>fetches\<close> and \<open>cache_writes\<close> record how often \<^verbatim>\<open>fetch\<close> was invoked and how
  often \<^verbatim>\<open>cached\<close> was assigned.
\<close>

datatype 'd call_state = AwaitingFetch | AwaitingJson | Returned 'd | Rejected

record 'd api_state =
  cached :: "'d option"
  calls :: "'d call_state list"
  fetches :: nat
  cache_writes :: nat

datatype 'd event =
    Call
  | FetchResolves nat
  | FetchRejects nat
  | JsonResolves nat 'd
  | JsonRejects nat

definition at_call :: "'d api_state \<Rightarrow> nat \<Rightarrow> 'd call_state \<Rightarrow> bool" where
  "at_call s i c \<longleftrightarrow> i < length (calls s) \<and> calls s ! i = c"

fun step :: "'d api_state \<Rightarrow> 'd event \<Rightarrow> 'd api_state" where
  "step s Call =
     (case cached s of
        Some d \<Rightarrow> s\<lparr>calls := calls s @ [Returned d]\<rparr>
      | None \<Rightarrow> s\<lparr>calls := calls s @ [AwaitingFetch], fetches := fetches s + 1\<rparr>)"
| "step s (FetchResolves i) =
     (if at_call s i AwaitingFetch then s\<lparr>calls := (calls s)[i := AwaitingJson]\<rparr> else s)"
| "step s (FetchRejects i) =
     (if at_call s i AwaitingFetch then s\<lparr>calls := (calls s)[i := Rejected]\<rparr> else s)"
| "step s (JsonResolves i d) =
     (if at_call s i AwaitingJson
      then s\<lparr>cached := Some d, cache_writes := cache_writes s + 1,
             calls := (calls s)[i := Returned d]\<rparr>
      else s)"
| "step s (JsonRejects i) =
     (if at_call s i AwaitingJson then s\<lparr>calls := (calls s)[i := Rejected]\<rparr> else s)"

definition run_events :: "'d api_state \<Rightarrow> 'd event list \<Rightarrow> 'd api_state" where
  "run_events s evs = foldl step s evs"

definition module_loaded :: "'d api_state" where
  \<comment> \<open>\<^verbatim>\<open>let cached: StaticData | null = null\<close>\<close>
  "module_loaded = \<lparr> cached = None, calls = [], fetches = 0, cache_writes = 0 \<rparr>"

definition suspended :: "'d api_state \<Rightarrow> nat" where
  \<comment> \<open>the number of calls waiting at one of the two suspension points\<close>
  "suspended s = length (filter (\<lambda>c. c = AwaitingFetch \<or> c = AwaitingJson) (calls s))"

section \<open>Example data\<close>

definition example_model :: "string \<Rightarrow> string \<Rightarrow> string option \<Rightarrow> (real \<times> real) option \<Rightarrow> CatalogModel" where
  "example_model ident name released price =
     \<lparr> m_provider = utf16 ''acme'', m_id = utf16 ident, displayName = utf16 name,
       family = None, supportsStructuredOutput = True, active = True,
       releaseDate = map_option utf16 released,
       costPer1MTokens = map_option (\<lambda>(i, out). \<lparr> input_per1M = i, output_per1M = out \<rparr>) price,
       contextWindow = None, maxOutput = None \<rparr>"

definition example_run ::
  "string \<Rightarrow> string \<Rightarrow> real option \<Rightarrow> real option \<Rightarrow> real option \<Rightarrow> real option \<Rightarrow> RunRow" where
  "example_run ident mdl sc dur inp out =
     \<lparr> run_id = utf16 ident, status = utf16 ''completed'', dataset = utf16 ''invoices'',
       prompt_version = utf16 ''v1'', schema_version = utf16 ''v1'', harness = utf16 ''default'',
       provider = utf16 ''acme'', model = utf16 mdl, total_files = 10, completed_files = 10,
       avg_score = sc, total_duration_ms = dur, started_at = utf16 ''2025-01-01T00:00:00Z'',
       finished_at = None, total_input_tokens = inp, total_output_tokens = out,
       prompt_preview = None \<rparr>"

definition example_page :: "bool \<Rightarrow> RunRow list \<Rightarrow> RunRow list \<Rightarrow> RunRow list \<Rightarrow> page_state" where
  "example_page l rs sel fil =
     \<lparr> runs = rs, loading = l, modelMap = [], selectedRows = sel, filteredRows = fil \<rparr>"

definition example_column :: "string \<Rightarrow> string option \<Rightarrow> string option list \<Rightarrow> column" where
  "example_column ident fv vals =
     \<lparr> col_id = utf16 ident, filterValue = map_option utf16 fv,
       facetedValues = map (map_option utf16) vals \<rparr>"

section \<open>Properties of the host's Map\<close>

lemma Map_get_Map_set:
  "Map_get (Map_set k v mp) k' = (if k' = k then Some v else Map_get mp k')"
  by (induction mp) auto

lemma Map_keys_Map_set:
  "set (Map_keys (Map_set k v mp)) = insert k (set (Map_keys mp))"
  by (induction mp) (force simp: Map_keys_def)+

lemma distinct_Map_set:
  "distinct (Map_keys mp) \<Longrightarrow> distinct (Map_keys (Map_set k v mp))"
proof (induction mp)
  case Nil
  then show ?case by (simp add: Map_keys_def)
next
  case (Cons p mp)
  obtain k' v' where p: "p = (k', v')" by (cases p)
  from Cons.prems have d: "distinct (Map_keys mp)" and n: "k' \<notin> set (Map_keys mp)"
    by (simp_all add: Map_keys_def p)
  show ?case
  proof (cases "k' = k")
    case True
    with Cons.prems show ?thesis by (simp add: Map_keys_def p)
  next
    case False
    from Cons.IH [OF d] have "distinct (Map_keys (Map_set k v mp))" .
    moreover from n False have "k' \<notin> set (Map_keys (Map_set k v mp))"
      by (simp add: Map_keys_Map_set)
    ultimately show ?thesis using False by (simp add: Map_keys_def p)
  qed
qed

section \<open>Catalog index: last entry wins\<close>

lemma find_app:
  "find P (xs @ ys) = (case find P xs of None \<Rightarrow> find P ys | Some x \<Rightarrow> Some x)"
  by (induction xs) auto

lemma foldl_index_get:
  "Map_get (foldl (\<lambda>mp m. Map_set (m_id m) m mp) mp0 ms) k =
     (case find (\<lambda>m. m_id m = k) (rev ms) of
        Some m \<Rightarrow> Some m
      | None \<Rightarrow> Map_get mp0 k)"
proof (induction ms arbitrary: mp0)
  case Nil
  then show ?case by simp
next
  case (Cons m ms)
  show ?case
    by (simp add: Cons.IH Map_get_Map_set find_app split: option.splits)
qed

lemma foldl_index_keys:
  "set (Map_keys (foldl (\<lambda>mp m. Map_set (m_id m) m mp) mp0 ms)) =
     set (Map_keys mp0) \<union> m_id ` set ms"
  by (induction ms arbitrary: mp0) (auto simp: Map_keys_Map_set)

lemma foldl_index_distinct:
  "distinct (Map_keys mp0) \<Longrightarrow>
     distinct (Map_keys (foldl (\<lambda>mp m. Map_set (m_id m) m mp) mp0 ms))"
  by (induction ms arbitrary: mp0) (auto simp: distinct_Map_set)

lemma find_last_occurrence:
  "m_id m \<notin> m_id ` set post \<Longrightarrow>
     find (\<lambda>x. m_id x = m_id m) (rev (pre @ m # post)) = Some m"
  by (induction post rule: rev_induct) (auto simp: find_app split: option.splits)

text \<open>
  C9. For every list of catalog models the index is a map from model id to model: its
  keys are exactly the ids of the input (each once), and the entry stored under an id
  is the last model of the input list that carries this id.
\<close>

theorem buildIndex_last_wins:
  "set (Map_keys (buildIndex models)) = m_id ` set models
   \<and> distinct (Map_keys (buildIndex models))
   \<and> (\<forall>m \<in> set models. \<exists>m'. Map_get (buildIndex models) (m_id m) = Some m' \<and> m_id m' = m_id m)
   \<and> (\<forall>pre m post. models = pre @ m # post \<and> m_id m \<notin> m_id ` set post
         \<longrightarrow> Map_get (buildIndex models) (m_id m) = Some m)"
proof (intro conjI ballI allI impI)
  show "set (Map_keys (buildIndex models)) = m_id ` set models"
    by (simp add: buildIndex_def foldl_index_keys) (simp add: Map_keys_def)
  show "distinct (Map_keys (buildIndex models))"
    unfolding buildIndex_def by (rule foldl_index_distinct) (simp add: Map_keys_def)
next
  fix m assume "m \<in> set models"
  then have "\<exists>x. find (\<lambda>x. m_id x = m_id m) (rev models) = Some x"
    by (cases "find (\<lambda>x. m_id x = m_id m) (rev models)") (auto simp: find_None_iff)
  then obtain x where x: "find (\<lambda>x. m_id x = m_id m) (rev models) = Some x" ..
  then have "m_id x = m_id m" by (auto simp: find_Some_iff)
  with x show "\<exists>m'. Map_get (buildIndex models) (m_id m) = Some m' \<and> m_id m' = m_id m"
    by (simp add: buildIndex_def foldl_index_get)
next
  fix pre m post
  assume "models = pre @ m # post \<and> m_id m \<notin> m_id ` set post"
  then have "find (\<lambda>x. m_id x = m_id m) (rev models) = Some m"
    using find_last_occurrence [of m post pre] by blast
  then show "Map_get (buildIndex models) (m_id m) = Some m"
    by (simp only: buildIndex_def foldl_index_get option.case)
qed

theorem buildIndex_last_wins_witness:
  "Map_get (buildIndex [example_model ''m1'' ''first'' None None,
                        example_model ''m2'' ''other'' None None,
                        example_model ''m1'' ''second'' None None]) (utf16 ''m1'')
     = Some (example_model ''m1'' ''second'' None None)"
proof -
  let ?a = "example_model ''m1'' ''first'' None None"
  let ?b = "example_model ''m2'' ''other'' None None"
  let ?c = "example_model ''m1'' ''second'' None None"
  have split: "[?a, ?b, ?c] = [?a, ?b] @ ?c # []" by simp
  have fresh: "m_id ?c \<notin> m_id ` set []" by simp
  have idc: "m_id ?c = utf16 ''m1''" by (simp add: example_model_def)
  from buildIndex_last_wins [of "[?a, ?b, ?c]"] split fresh
  have "Map_get (buildIndex [?a, ?b, ?c]) (m_id ?c) = Some ?c" by blast
  then show ?thesis by (simp only: idc)
qed

section \<open>Cost and cost efficiency\<close>

lemma cost_cases:
  "computeRunCost h run mdl =
     (case mdl of None \<Rightarrow> None | Some m \<Rightarrow>
        (case costPer1MTokens m of None \<Rightarrow> None | Some price \<Rightarrow>
           if coalesce (total_input_tokens run) 0 = 0 \<and> coalesce (total_output_tokens run) 0 = 0 then None
           else Some (fadd h
                        (fmul h (fdiv h (coalesce (total_input_tokens run) 0) 1000000)
                                (input_per1M price))
                        (fmul h (fdiv h (coalesce (total_output_tokens run) 0) 1000000)
                                (output_per1M price)))))"
  by (simp add: computeRunCost_def Let_def split: option.splits)

lemma coalesce_nonzero:
  "coalesce v (0::real) \<noteq> 0 \<longleftrightarrow> (\<exists>n. v = Some n \<and> n \<noteq> 0)"
  by (cases v) (simp_all add: coalesce_def)

lemma EM_DASH_not_dollar: "EM_DASH \<noteq> 0x24 # s"
  by (simp add: EM_DASH_def)

lemma formatCost_cost:
  "formatCost h ts run mdl =
     (case computeRunCost h run mdl of
        None \<Rightarrow> EM_DASH
      | Some c \<Rightarrow> (if c < fnum h (1 / 100) then 0x24 # toFixed ts c 4
                   else if c < 1 then 0x24 # toFixed ts c 3
                   else 0x24 # toFixed ts c 2))"
proof (cases mdl)
  case None
  then show ?thesis by (simp add: formatCost_def computeRunCost_def)
next
  case m: (Some m)
  show ?thesis
  proof (cases "costPer1MTokens m")
    case None
    with m show ?thesis by (simp add: formatCost_def computeRunCost_def)
  next
    case (Some price)
    show ?thesis
    proof (cases "coalesce (total_input_tokens run) 0 = 0
                  \<and> coalesce (total_output_tokens run) 0 = 0")
      case True
      with m Some show ?thesis by (simp add: formatCost_def computeRunCost_def)
    next
      case False
      with m Some show ?thesis
        by (simp only: formatCost_def computeRunCost_def Let_def option.case if_False)
    qed
  qed
qed

lemma binary64_0: "binary64 0 = 0"
  by (simp add: binary64_def)

lemma binary64_exact:
  "binary64 1 = 1" "binary64 (- 1) = - 1" "binary64 20 = 20" "binary64 50 = 50"
  "binary64 (- 50) = - 50" "binary64 (925 / 32) = 925 / 32"
  by code_simp+

lemma binary64_inexact:
  "binary64 (3 / 20000) = 5534023222112865 / 36893488147419103232"
  "binary64 (5534023222112865 / 36893488147419103232) = 5534023222112865 / 36893488147419103232"
  "binary64 (1 / 100) = 5764607523034235 / 576460752303423488"
  "binary64 (29 / 20) = 6530219459687219 / 4503599627370496"
  by code_simp+

text \<open>
  C2. For every run and every joined catalog model, present or not, the computed cost is
  defined exactly when the model is present with a pricing entry and at least one of the
  run's two token counts is present and nonzero. When it is defined it is the value of
  \<open>(input / 1e6) * price_in + (output / 1e6) * price_out\<close> in the host's arithmetic, an
  absent count read as 0, and the table cell shows it as a dollar amount; when it is not
  defined the cell shows the placeholder dash, never a zero amount. This holds whatever
  the host's operations are.
\<close>

theorem computeRunCost_defined_iff:
  "(computeRunCost h run mdl \<noteq> None \<longleftrightarrow>
      (\<exists>m price. mdl = Some m \<and> costPer1MTokens m = Some price)
      \<and> ((\<exists>n. total_input_tokens run = Some n \<and> n \<noteq> 0)
         \<or> (\<exists>n. total_output_tokens run = Some n \<and> n \<noteq> 0)))
   \<and> (\<forall>c. computeRunCost h run mdl = Some c \<longrightarrow>
        (\<exists>m price. mdl = Some m \<and> costPer1MTokens m = Some price \<and>
           c = fadd h
                 (fmul h (fdiv h (coalesce (total_input_tokens run) 0) 1000000)
                         (input_per1M price))
                 (fmul h (fdiv h (coalesce (total_output_tokens run) 0) 1000000)
                         (output_per1M price)) \<and>
           formatCost h ts run mdl =
             (if c < fnum h (1 / 100) then 0x24 # toFixed ts c 4
              else if c < 1 then 0x24 # toFixed ts c 3
              else 0x24 # toFixed ts c 2)))
   \<and> (computeRunCost h run mdl = None \<longleftrightarrow> formatCost h ts run mdl = EM_DASH)"
proof (intro conjI allI impI)
  show "computeRunCost h run mdl \<noteq> None \<longleftrightarrow>
      (\<exists>m price. mdl = Some m \<and> costPer1MTokens m = Some price)
      \<and> ((\<exists>n. total_input_tokens run = Some n \<and> n \<noteq> 0)
         \<or> (\<exists>n. total_output_tokens run = Some n \<and> n \<noteq> 0))"
    unfolding coalesce_nonzero [symmetric]
    by (auto simp: cost_cases split: option.splits)
next
  fix c assume "computeRunCost h run mdl = Some c"
  then show "\<exists>m price. mdl = Some m \<and> costPer1MTokens m = Some price \<and>
           c = fadd h
                 (fmul h (fdiv h (coalesce (total_input_tokens run) 0) 1000000)
                         (input_per1M price))
                 (fmul h (fdiv h (coalesce (total_output_tokens run) 0) 1000000)
                         (output_per1M price)) \<and>
           formatCost h ts run mdl =
             (if c < fnum h (1 / 100) then 0x24 # toFixed ts c 4
              else if c < 1 then 0x24 # toFixed ts c 3
              else 0x24 # toFixed ts c 2)"
    by (simp only: formatCost_cost option.case) (auto simp: cost_cases split: option.splits if_splits)
next
  show "computeRunCost h run mdl = None \<longleftrightarrow> formatCost h ts run mdl = EM_DASH"
    using EM_DASH_not_dollar [symmetric]
    by (cases "computeRunCost h run mdl") (simp_all only: formatCost_cost option.case, auto)
qed

text \<open>
  With binary64 arithmetic, 150 input tokens at one dollar per million cost the double
  next below 0.00015, which the cell shows with four decimals as \<open>$0.0001\<close>.
\<close>

theorem computeRunCost_defined_iff_witness:
  "computeRunCost ieee754 (example_run ''r1'' ''m1'' (Some (1 / 2)) None (Some 150) None)
       (Some (example_model ''m1'' ''M one'' None (Some (1, 1)))) = Some (binary64 (3 / 20000))
   \<and> binary64 (3 / 20000) < 3 / 20000
   \<and> formatCost ieee754 (\<lambda>x. []) (example_run ''r1'' ''m1'' (Some (1 / 2)) None (Some 150) None)
       (Some (example_model ''m1'' ''M one'' None (Some (1, 1)))) = utf16 ''$0.0001''"
proof -
  let ?r = "example_run ''r1'' ''m1'' (Some (1 / 2)) None (Some 150) None"
  let ?m = "example_model ''m1'' ''M one'' None (Some (1, 1))"
  let ?c = "fadd ieee754 (fmul ieee754 (fdiv ieee754 150 1000000) 1)
                         (fmul ieee754 (fdiv ieee754 0 1000000) 1)"
  have priced: "\<exists>m price. Some ?m = Some m \<and> costPer1MTokens m = Some price"
    by (simp add: example_model_def)
  have tokens: "\<exists>n. total_input_tokens ?r = Some n \<and> n \<noteq> 0"
    by (simp add: example_run_def)
  from computeRunCost_defined_iff [of ieee754 ?r "Some ?m"] priced tokens
  have "computeRunCost ieee754 ?r (Some ?m) \<noteq> None" by blast
  then obtain c where c: "computeRunCost ieee754 ?r (Some ?m) = Some c" by blast
  with computeRunCost_defined_iff [of ieee754 ?r "Some ?m" "\<lambda>x. []"]
  obtain m price where mp: "Some ?m = Some m" "costPer1MTokens m = Some price"
    and val: "c = fadd ieee754
                    (fmul ieee754 (fdiv ieee754 (coalesce (total_input_tokens ?r) 0) 1000000)
                                  (input_per1M price))
                    (fmul ieee754 (fdiv ieee754 (coalesce (total_output_tokens ?r) 0) 1000000)
                                  (output_per1M price))"
    and fmt: "formatCost ieee754 (\<lambda>x. []) ?r (Some ?m) =
                (if c < fnum ieee754 (1 / 100) then 0x24 # toFixed (\<lambda>x. []) c 4
                 else if c < 1 then 0x24 # toFixed (\<lambda>x. []) c 3
                 else 0x24 # toFixed (\<lambda>x. []) c 2)"
    by blast
  from mp have price: "input_per1M price = 1" "output_per1M price = 1"
    by (auto simp: example_model_def)
  have toks: "coalesce (total_input_tokens ?r) 0 = 150" "coalesce (total_output_tokens ?r) 0 = 0"
    by (simp_all add: example_run_def coalesce_def)
  from val have "c = ?c" by (simp only: price toks)
  also have "?c = binary64 (3 / 20000)"
    by (simp add: ieee754_def binary64_inexact binary64_0)
  finally have cv: "c = binary64 (3 / 20000)" .
  have below: "binary64 (3 / 20000) < 3 / 20000" by (simp add: binary64_inexact)
  have digits: "toFixed (\<lambda>x. []) (5534023222112865 / 36893488147419103232) 4 = utf16 ''0.0001''"
    by code_simp
  from fmt have "formatCost ieee754 (\<lambda>x. []) ?r (Some ?m) =
         (if binary64 (3 / 20000) < fnum ieee754 (1 / 100)
          then 0x24 # toFixed (\<lambda>x. []) (binary64 (3 / 20000)) 4
          else if binary64 (3 / 20000) < 1 then 0x24 # toFixed (\<lambda>x. []) (binary64 (3 / 20000)) 3
          else 0x24 # toFixed (\<lambda>x. []) (binary64 (3 / 20000)) 2)"
    by (simp only: cv)
  also have "\<dots> = utf16 ''$0.0001''"
    by (simp add: ieee754_def binary64_inexact digits) (simp add: utf16_def)
  finally have shown: "formatCost ieee754 (\<lambda>x. []) ?r (Some ?m) = utf16 ''$0.0001''" .
  from c cv have "computeRunCost ieee754 ?r (Some ?m) = Some (binary64 (3 / 20000))"
    by (simp only:)
  with below shown show ?thesis by blast
qed

lemma effpoint_cases:
  "efficiencyPoint h mm r =
     (case computeRunCost h r (Map_get mm (model r)) of
        None \<Rightarrow> None
      | Some c \<Rightarrow>
          if c = 0 then None
          else (case avg_score r of
                  None \<Rightarrow> None
                | Some s \<Rightarrow>
                    Some \<lparr> ep_name = getLabel r,
                           ep_efficiency =
                             fnum h (toFixed_number (fdiv h (Math_round (fmul h s 100)) c) 1) \<rparr>))"
  by (simp add: efficiencyPoint_def Let_def split: option.splits)

lemma pow2_pos: "0 < pow2 e"
  by (simp add: pow2_def)

lemma round_half_even_nonneg: "0 \<le> q \<Longrightarrow> 0 \<le> round_half_even q"
  by (auto simp: round_half_even_def Let_def)

lemma binary64_nonneg: "0 \<le> x \<Longrightarrow> 0 \<le> binary64 x"
proof (cases "x = 0")
  case True
  then show ?thesis by (simp add: binary64_def)
next
  case False
  assume "0 \<le> x"
  with False have pos: "0 < x" by simp
  define u where "u = pow2 (max (ilog2 1100 \<bar>x\<bar>) (- 1022) - 52)"
  have u: "0 < u" unfolding u_def by (rule pow2_pos)
  with pos have "0 \<le> \<bar>x\<bar> / u" by simp
  then have "0 \<le> round_half_even (\<bar>x\<bar> / u)" by (rule round_half_even_nonneg)
  with u have "0 \<le> of_int (round_half_even (\<bar>x\<bar> / u)) * u" by simp
  with pos False show ?thesis by (simp add: binary64_def Let_def u_def)
qed

lemma computeRunCost_nonneg:
  assumes "computeRunCost ieee754 r (Some m) = Some c" "costPer1MTokens m = Some price"
    and "0 \<le> input_per1M price" "0 \<le> output_per1M price"
    and "0 \<le> coalesce (total_input_tokens r) 0" "0 \<le> coalesce (total_output_tokens r) 0"
  shows "0 \<le> c"
proof -
  from assms(1,2) have "c = binary64 (binary64 (binary64 (coalesce (total_input_tokens r) 0 / 1000000)
                                          * input_per1M price)
                            + binary64 (binary64 (coalesce (total_output_tokens r) 0 / 1000000)
                                          * output_per1M price))"
    by (simp add: cost_cases ieee754_def split: if_splits)
  moreover have "0 \<le> binary64 (binary64 (coalesce (total_input_tokens r) 0 / 1000000)
                                 * input_per1M price)"
    using assms(3,5) by (intro binary64_nonneg mult_nonneg_nonneg) simp_all
  moreover have "0 \<le> binary64 (binary64 (coalesce (total_output_tokens r) 0 / 1000000)
                                 * output_per1M price)"
    using assms(4,6) by (intro binary64_nonneg mult_nonneg_nonneg) simp_all
  ultimately show ?thesis by (simp add: binary64_nonneg)
qed

text \<open>
  C3, as the code has it. The efficiency of a run is defined exactly when its cost is
  defined and is not zero and its average score is defined; it is then
  \<open>score_pct / cost\<close>, a quotient of the host's arithmetic, written with one decimal
  and read back as a number, with \<open>score_pct\<close> the rounded percentage of the average
  score. The guard is \<^verbatim>\<open>cost === 0\<close>: in binary64 arithmetic, for token counts and
  prices that are not negative, a nonzero cost is a strictly positive one.
\<close>

theorem efficiency_defined_iff:
  "(efficiencyPoint h mm r \<noteq> None \<longleftrightarrow>
      (\<exists>c s. computeRunCost h r (Map_get mm (model r)) = Some c \<and> c \<noteq> 0
             \<and> avg_score r = Some s))
   \<and> (\<forall>c s. computeRunCost h r (Map_get mm (model r)) = Some c \<and> c \<noteq> 0
             \<and> avg_score r = Some s \<longrightarrow>
         map_option ep_efficiency (efficiencyPoint h mm r)
           = Some (fnum h (toFixed_number (fdiv h (Math_round (fmul h s 100)) c) 1)))
   \<and> (\<forall>c m price. Map_get mm (model r) = Some m \<and> costPer1MTokens m = Some price
         \<and> 0 \<le> input_per1M price \<and> 0 \<le> output_per1M price
         \<and> 0 \<le> coalesce (total_input_tokens r) 0 \<and> 0 \<le> coalesce (total_output_tokens r) 0
         \<and> computeRunCost ieee754 r (Some m) = Some c
         \<longrightarrow> (c \<noteq> 0 \<longleftrightarrow> 0 < c))"
proof (intro conjI allI impI)
  show "efficiencyPoint h mm r \<noteq> None \<longleftrightarrow>
      (\<exists>c s. computeRunCost h r (Map_get mm (model r)) = Some c \<and> c \<noteq> 0
             \<and> avg_score r = Some s)"
    by (auto simp: effpoint_cases split: option.splits)
next
  fix c s
  assume "computeRunCost h r (Map_get mm (model r)) = Some c \<and> c \<noteq> 0
             \<and> avg_score r = Some s"
  then show "map_option ep_efficiency (efficiencyPoint h mm r)
           = Some (fnum h (toFixed_number (fdiv h (Math_round (fmul h s 100)) c) 1))"
    by (simp add: effpoint_cases)
next
  fix c m price
  assume a: "Map_get mm (model r) = Some m \<and> costPer1MTokens m = Some price
         \<and> 0 \<le> input_per1M price \<and> 0 \<le> output_per1M price
         \<and> 0 \<le> coalesce (total_input_tokens r) 0 \<and> 0 \<le> coalesce (total_output_tokens r) 0
         \<and> computeRunCost ieee754 r (Some m) = Some c"
  then have "0 \<le> c" using computeRunCost_nonneg [of r m c price] by blast
  then show "c \<noteq> 0 \<longleftrightarrow> 0 < c" by auto
qed

text \<open>
  C3 as stated fails where the cost is negative: with a price of \<open>-1\<close> per million input
  tokens and one million input tokens the cost is \<open>-1\<close>, which is defined and not
  strictly positive, and the efficiency is defined all the same.
\<close>

theorem efficiency_negative_cost_counterexample:
  "computeRunCost ieee754 (example_run ''r1'' ''m1'' (Some (1 / 2)) None (Some 1000000) None)
       (Map_get (buildIndex [example_model ''m1'' ''M one'' None (Some (- 1, 0))]) (utf16 ''m1''))
     = Some (- 1)
   \<and> \<not> (0 < (- 1 :: real))
   \<and> map_option ep_efficiency
       (efficiencyPoint ieee754 (buildIndex [example_model ''m1'' ''M one'' None (Some (- 1, 0))])
          (example_run ''r1'' ''m1'' (Some (1 / 2)) None (Some 1000000) None))
     = Some (- 50)"
proof -
  let ?m = "example_model ''m1'' ''M one'' None (Some (- 1, 0))"
  let ?r = "example_run ''r1'' ''m1'' (Some (1 / 2)) None (Some 1000000) None"
  have idx: "Map_get (buildIndex [?m]) (model ?r) = Some ?m"
    by (simp add: buildIndex_def example_model_def example_run_def)
  have mr: "model ?r = utf16 ''m1''" by (simp add: example_run_def)
  have cost: "computeRunCost ieee754 ?r (Some ?m) = Some (- 1)"
    by (simp add: computeRunCost_def example_model_def example_run_def coalesce_def
        ieee754_def binary64_exact binary64_0)
  have avg: "avg_score ?r = Some (1 / 2)" by (simp add: example_run_def)
  have "map_option ep_efficiency (efficiencyPoint ieee754 (buildIndex [?m]) ?r)
          = Some (fnum ieee754
                    (toFixed_number (fdiv ieee754 (Math_round (fmul ieee754 (1 / 2) 100)) (- 1)) 1))"
    by (simp add: effpoint_cases idx cost avg)
  moreover have "fnum ieee754
                   (toFixed_number (fdiv ieee754 (Math_round (fmul ieee754 (1 / 2) 100)) (- 1)) 1)
                 = - 50"
    by (simp add: ieee754_def binary64_exact Math_round_def toFixed_number_def toFixed_scaled_def)
  ultimately have eff:
    "map_option ep_efficiency (efficiencyPoint ieee754 (buildIndex [?m]) ?r) = Some (- 50)"
    by (simp only:)
  from idx mr cost eff show ?thesis by simp
qed

text \<open>
  With binary64 arithmetic, an average score of 37/128 (29 percent) at a cost of 20 gives
  the quotient 29/20 as the double next below 1.45, so the efficiency is 1.4.
\<close>

theorem efficiency_defined_iff_witness:
  "map_option ep_efficiency
       (efficiencyPoint ieee754 (buildIndex [example_model ''m1'' ''M one'' None (Some (1, 1))])
          (example_run ''r1'' ''m1'' (Some (37 / 128)) None (Some 20000000) None))
     = Some (binary64 (14 / 10))"
proof -
  let ?m = "example_model ''m1'' ''M one'' None (Some (1, 1))"
  let ?r = "example_run ''r1'' ''m1'' (Some (37 / 128)) None (Some 20000000) None"
  have idx: "Map_get (buildIndex [?m]) (model ?r) = Some ?m"
    by (simp add: buildIndex_def example_model_def example_run_def)
  have cost: "computeRunCost ieee754 ?r (Some ?m) = Some 20"
    by (simp add: computeRunCost_def example_model_def example_run_def coalesce_def
        ieee754_def binary64_exact binary64_0)
  have avg: "avg_score ?r = Some (37 / 128)" by (simp add: example_run_def)
  have h: "computeRunCost ieee754 ?r (Map_get (buildIndex [?m]) (model ?r)) = Some 20
             \<and> (20::real) \<noteq> 0 \<and> avg_score ?r = Some (37 / 128)"
    by (simp only: idx cost avg) simp
  from efficiency_defined_iff [of ieee754 "buildIndex [?m]" ?r]
  have "\<forall>c s. computeRunCost ieee754 ?r (Map_get (buildIndex [?m]) (model ?r)) = Some c \<and> c \<noteq> 0
             \<and> avg_score ?r = Some s \<longrightarrow>
         map_option ep_efficiency (efficiencyPoint ieee754 (buildIndex [?m]) ?r)
           = Some (fnum ieee754 (toFixed_number (fdiv ieee754 (Math_round (fmul ieee754 s 100)) c) 1))"
    by (rule conjunct1 [OF conjunct2])
  with h have "map_option ep_efficiency (efficiencyPoint ieee754 (buildIndex [?m]) ?r)
          = Some (fnum ieee754
                    (toFixed_number (fdiv ieee754 (Math_round (fmul ieee754 (37 / 128) 100)) 20) 1))"
    by blast
  also have "fnum ieee754 (toFixed_number (fdiv ieee754 (Math_round (fmul ieee754 (37 / 128) 100)) 20) 1)
               = binary64 (14 / 10)"
  proof -
    have tenths: "toFixed_number (6530219459687219 / 4503599627370496) (Suc 0) = 7 / 5"
      by code_simp
    show ?thesis
      by (simp add: ieee754_def binary64_exact binary64_inexact Math_round_def tenths)
  qed
  finally show ?thesis .
qed

section \<open>Labels and prompt previews\<close>

lemma split_nonempty: "split sep s \<noteq> []"
  by (induction s) (auto split: list.splits)

lemma trimEnd_decomp:
  "\<exists>ws. s = trimEnd s @ ws \<and> (\<forall>c \<in> set ws. isWhiteSpace c)"
proof -
  let ?ws = "rev (takeWhile isWhiteSpace (rev s))"
  have "s = rev (dropWhile isWhiteSpace (rev s)) @ rev (takeWhile isWhiteSpace (rev s))"
    by (metis rev_append rev_rev_ident takeWhile_dropWhile_id)
  then have "s = trimEnd s @ ?ws" by (simp only: trimEnd_def)
  moreover have "\<forall>c \<in> set ?ws. isWhiteSpace c" by (auto dest: set_takeWhileD)
  ultimately show ?thesis by blast
qed

lemma length_trimEnd: "length (trimEnd s) \<le> length s"
  unfolding trimEnd_def by (metis length_dropWhile_le length_rev)

lemma length_ELLIPSIS: "length ELLIPSIS = 3"
  by (simp add: ELLIPSIS_def)

text \<open>
  C7, as the code has it. A missing or empty text is shown as the placeholder dash. A
  text that is not empty and no longer than \<open>max\<close> is returned unchanged. A longer text
  is cut to its first \<open>max\<close> code units, trailing white space is removed from the cut,
  and the three-dot marker is appended: the part kept from the text never exceeds \<open>max\<close>
  code units, the whole result never exceeds \<open>max + 3\<close>.
\<close>

theorem truncatePrompt_behaviour:
  "truncatePrompt None mx = EM_DASH
   \<and> truncatePrompt (Some []) mx = EM_DASH
   \<and> (t \<noteq> [] \<and> int (length t) \<le> mx \<longrightarrow> truncatePrompt (Some t) mx = t)
   \<and> (t \<noteq> [] \<and> mx < int (length t) \<longrightarrow>
        truncatePrompt (Some t) mx = trimEnd (slice0 t mx) @ ELLIPSIS)
   \<and> (0 \<le> mx \<and> mx < int (length t) \<longrightarrow>
        (\<exists>ws. take (nat mx) t = trimEnd (slice0 t mx) @ ws \<and> (\<forall>c \<in> set ws. isWhiteSpace c))
        \<and> int (length (trimEnd (slice0 t mx))) \<le> mx
        \<and> int (length (truncatePrompt (Some t) mx)) \<le> mx + 3)"
proof (intro conjI impI)
  show "truncatePrompt None mx = EM_DASH" by (simp add: truncatePrompt_def)
  show "truncatePrompt (Some []) mx = EM_DASH" by (simp add: truncatePrompt_def)
  show "truncatePrompt (Some t) mx = t" if "t \<noteq> [] \<and> int (length t) \<le> mx"
    using that by (simp add: truncatePrompt_def)
  show "truncatePrompt (Some t) mx = trimEnd (slice0 t mx) @ ELLIPSIS"
    if "t \<noteq> [] \<and> mx < int (length t)"
    using that by (simp add: truncatePrompt_def)
next
  assume a: "0 \<le> mx \<and> mx < int (length t)"
  then have sl: "slice0 t mx = take (nat mx) t" by (simp add: slice0_def)
  from trimEnd_decomp [of "take (nat mx) t"] sl
  show "\<exists>ws. take (nat mx) t = trimEnd (slice0 t mx) @ ws \<and> (\<forall>c \<in> set ws. isWhiteSpace c)"
    by simp
  from a have "nat mx < length t" by linarith
  with a have lt: "int (length (take (nat mx) t)) = mx" by (simp add: min_def)
  with length_trimEnd [of "take (nat mx) t"] sl
  show kept: "int (length (trimEnd (slice0 t mx))) \<le> mx" by (simp only: sl)
  from a have "t \<noteq> []" by auto
  with a have "truncatePrompt (Some t) mx = trimEnd (slice0 t mx) @ ELLIPSIS"
    by (simp add: truncatePrompt_def)
  with kept show "int (length (truncatePrompt (Some t) mx)) \<le> mx + 3"
    by (simp add: length_ELLIPSIS)
qed

text \<open>
  C7 as stated fails twice: the empty text has length \<open>0 \<le> max\<close> and is not returned
  unchanged, and a text of four letters cut at \<open>max = 3\<close> comes back six code units long.
\<close>

theorem truncatePrompt_counterexample:
  "int (length ([] :: jsstring)) \<le> 72
   \<and> truncatePrompt (Some []) 72 \<noteq> []
   \<and> \<not> int (length (utf16 ''abcd'')) \<le> 3
   \<and> truncatePrompt (Some (utf16 ''abcd'')) 3 = utf16 ''abc...''
   \<and> \<not> int (length (utf16 ''abc...'')) \<le> 3"
  by (simp add: truncatePrompt_def EM_DASH_def utf16_def slice0_def trimEnd_def
      isWhiteSpace_def ELLIPSIS_def)

theorem truncatePrompt_behaviour_witness:
  "truncatePrompt (Some (utf16 ''ab  cd'')) 4 = utf16 ''ab...''
   \<and> truncatePrompt (Some (utf16 ''ab'')) 4 = utf16 ''ab''"
proof -
  let ?t = "utf16 ''ab  cd''"
  have h: "?t \<noteq> [] \<and> 4 < int (length ?t)" by (simp add: utf16_def)
  from truncatePrompt_behaviour [of 4 ?t] h
  have "truncatePrompt (Some ?t) 4 = trimEnd (slice0 ?t 4) @ ELLIPSIS" by blast
  also have "trimEnd (slice0 ?t 4) @ ELLIPSIS = utf16 ''ab...''"
    by (simp add: utf16_def slice0_def trimEnd_def isWhiteSpace_def ELLIPSIS_def)
  finally have long: "truncatePrompt (Some ?t) 4 = utf16 ''ab...''" .
  have h2: "utf16 ''ab'' \<noteq> [] \<and> int (length (utf16 ''ab'')) \<le> 4" by (simp add: utf16_def)
  from truncatePrompt_behaviour [of 4 "utf16 ''ab''"] h2
  have "truncatePrompt (Some (utf16 ''ab'')) 4 = utf16 ''ab''" by blast
  with long show ?thesis by simp
qed

lemma getLabel_long:
  "28 < length (if SLASH \<in> set (model run) then last (split SLASH (model run)) else model run)
     \<Longrightarrow> length (getLabel run) = 29"
  by (simp add: getLabel_def Let_def slice0_def length_ELLIPSIS min_def)

lemma getLabel_short:
  "length (if SLASH \<in> set (model run) then last (split SLASH (model run)) else model run) \<le> 28
     \<Longrightarrow> getLabel run
           = (if SLASH \<in> set (model run) then last (split SLASH (model run)) else model run)"
  by (simp add: getLabel_def Let_def)

text \<open>
  C6. The label is the model id after its last slash, and an id longer than 28 code units
  is to be cut so that the label, marker included, has at most 28. The source keeps 26
  code units and appends three full stops: for a 29-letter id after the provider prefix
  the label is 29 code units long.
\<close>

theorem getLabel_truncated_to_29:
  "getLabel (example_run ''r1'' ''openai/abcdefghijklmnopqrstuvwxyz012'' None None None None)
     = utf16 ''abcdefghijklmnopqrstuvwxyz...''
   \<and> length (getLabel (example_run ''r1'' ''openai/abcdefghijklmnopqrstuvwxyz012'' None None None None)) = 29"
  by (simp add: getLabel_def example_run_def utf16_def SLASH_def slice0_def ELLIPSIS_def)

section \<open>Resolver, page render and summary cards\<close>

lemma SummaryCards_nonempty:
  "rs \<noteq> [] \<Longrightarrow> \<exists>s. SummaryCards rs = Inr s \<and> run_count s = length rs"
  by (cases rs) (simp_all add: SummaryCards_def)

lemma ComparisonCharts_nonempty:
  "rs \<noteq> [] \<Longrightarrow> \<exists>c. ComparisonCharts lc rs mm = Inr c \<and> SummaryCards rs = Inr (cmp_summary c)"
  using SummaryCards_nonempty [of rs] by (auto simp: ComparisonCharts_def)

lemma ComparisonCharts_Inr:
  "ComparisonCharts lc rs mm = Inr c \<Longrightarrow> SummaryCards rs = Inr (cmp_summary c)"
  by (auto simp: ComparisonCharts_def split: sum.splits)

lemma rendered_iff:
  "comparison_rendered (DashboardPage lc st) \<longleftrightarrow>
     \<not> loading st \<and> runs st \<noteq> [] \<and> 2 \<le> length (chartRuns (selectedRows st) (filteredRows st))"
proof (cases "2 \<le> length (chartRuns (selectedRows st) (filteredRows st))")
  case True
  then have "chartRuns (selectedRows st) (filteredRows st) \<noteq> []" by auto
  from ComparisonCharts_nonempty [OF this, of lc "modelMap st"] True
  show ?thesis
    by (auto simp: DashboardPage_def comparison_rendered_def Let_def)
next
  case False
  then show ?thesis
    by (auto simp: DashboardPage_def comparison_rendered_def Let_def)
qed

lemma rendered_state_iff:
  assumes "rendered_state st"
  shows "comparison_rendered (DashboardPage lc st)
           \<longleftrightarrow> 2 \<le> length (chartRuns (selectedRows st) (filteredRows st))"
proof (cases "runs st = []")
  case True
  with assms have "selectedRows st = []" and "filteredRows st = []"
    by (simp_all add: rendered_state_def)
  with True show ?thesis by (simp add: rendered_iff chartRuns_def)
next
  case False
  with assms have "\<not> loading st" by (auto simp: rendered_state_def)
  with False show ?thesis by (simp add: rendered_iff)
qed

text \<open>
  C1. For every list of selected rows and every list of filtered rows the resolver
  returns the selected rows when there are two or more of them and the filtered rows
  when there are fewer. In every state the page is rendered in, the comparison view is
  rendered exactly when the resolved set has at least two rows: the two placeholders,
  which return before the view is reached, are only ever shown with no runs, hence with
  an empty resolved set.
\<close>

theorem chartRuns_resolver:
  "(2 \<le> length selectedRuns \<longrightarrow> chartRuns selectedRuns filteredRuns = selectedRuns)
   \<and> (length selectedRuns < 2 \<longrightarrow> chartRuns selectedRuns filteredRuns = filteredRuns)
   \<and> (rendered_state st \<longrightarrow>
        (comparison_rendered (DashboardPage lc st)
           \<longleftrightarrow> 2 \<le> length (chartRuns (selectedRows st) (filteredRows st))))"
  using rendered_state_iff [of st lc] by (simp add: chartRuns_def)

theorem chartRuns_resolver_witness:
  "chartRuns [example_run ''r1'' ''m1'' None None None None,
              example_run ''r2'' ''m2'' None None None None]
             [example_run ''r3'' ''m3'' None None None None]
     = [example_run ''r1'' ''m1'' None None None None,
        example_run ''r2'' ''m2'' None None None None]
   \<and> chartRuns [example_run ''r1'' ''m1'' None None None None]
             [example_run ''r3'' ''m3'' None None None None]
     = [example_run ''r3'' ''m3'' None None None None]
   \<and> comparison_rendered
        (DashboardPage compare_code_units
          (example_page False
             [example_run ''r1'' ''m1'' None None None None,
              example_run ''r2'' ''m2'' None None None None,
              example_run ''r3'' ''m3'' None None None None]
             [example_run ''r1'' ''m1'' None None None None,
              example_run ''r2'' ''m2'' None None None None]
             [example_run ''r3'' ''m3'' None None None None]))
   \<and> \<not> comparison_rendered
        (DashboardPage compare_code_units
          (example_page False
             [example_run ''r1'' ''m1'' None None None None,
              example_run ''r2'' ''m2'' None None None None,
              example_run ''r3'' ''m3'' None None None None]
             [example_run ''r1'' ''m1'' None None None None]
             [example_run ''r3'' ''m3'' None None None None]))
   \<and> \<not> comparison_rendered (DashboardPage compare_code_units (example_page True [] [] []))"
proof -
  let ?r1 = "example_run ''r1'' ''m1'' None None None None"
  let ?r2 = "example_run ''r2'' ''m2'' None None None None"
  let ?r3 = "example_run ''r3'' ''m3'' None None None None"
  let ?st = "example_page False [?r1, ?r2, ?r3] [?r1, ?r2] [?r3]"
  let ?one = "example_page False [?r1, ?r2, ?r3] [?r1] [?r3]"
  let ?mount = "example_page True [] [] []"
  have two: "2 \<le> length [?r1, ?r2]" by simp
  have one: "length [?r1] < 2" by simp
  have st: "rendered_state ?st" "selectedRows ?st = [?r1, ?r2]" "filteredRows ?st = [?r3]"
    by (simp_all add: example_page_def rendered_state_def)
  have st1: "rendered_state ?one" "selectedRows ?one = [?r1]" "filteredRows ?one = [?r3]"
    by (simp_all add: example_page_def rendered_state_def)
  have st0: "rendered_state ?mount" "selectedRows ?mount = []" "filteredRows ?mount = []"
    by (simp_all add: example_page_def rendered_state_def)
  from chartRuns_resolver [of "[?r1, ?r2]" "[?r3]"] two
  have a: "chartRuns [?r1, ?r2] [?r3] = [?r1, ?r2]" by blast
  from chartRuns_resolver [of "[?r1]" "[?r3]"] one
  have b: "chartRuns [?r1] [?r3] = [?r3]" by blast
  from chartRuns_resolver [of _ _ ?st compare_code_units] st(1)
  have "comparison_rendered (DashboardPage compare_code_units ?st)
          \<longleftrightarrow> 2 \<le> length (chartRuns (selectedRows ?st) (filteredRows ?st))" by blast
  with a two have c: "comparison_rendered (DashboardPage compare_code_units ?st)"
    by (simp add: st(2,3))
  from chartRuns_resolver [of _ _ ?one compare_code_units] st1(1)
  have "comparison_rendered (DashboardPage compare_code_units ?one)
          \<longleftrightarrow> 2 \<le> length (chartRuns (selectedRows ?one) (filteredRows ?one))" by blast
  with b have d: "\<not> comparison_rendered (DashboardPage compare_code_units ?one)"
    by (simp add: st1(2,3))
  from chartRuns_resolver [of _ _ ?mount compare_code_units] st0(1)
  have "comparison_rendered (DashboardPage compare_code_units ?mount)
          \<longleftrightarrow> 2 \<le> length (chartRuns (selectedRows ?mount) (filteredRows ?mount))" by blast
  then have e: "\<not> comparison_rendered (DashboardPage compare_code_units ?mount)"
    by (simp add: st0(2,3) chartRuns_def)
  from a b c d e show ?thesis by blast
qed

text \<open>
  C10. In every state of the page the render returns a view and no TypeError: the
  comparison view, and with it the summary cards, is only built from a resolved list of
  at least two runs, on which the three scans of the summary all return. The unseeded
  \<open>reduce\<close> does fail on the empty list, which the guard keeps away.
\<close>

theorem SummaryCards_guarded:
  "(\<exists>v. DashboardPage lc st = Inr v)
   \<and> (\<forall>c. DashboardPage lc st = Inr (Dashboard (Some c)) \<longrightarrow>
          2 \<le> length (chartRuns (selectedRows st) (filteredRows st))
          \<and> SummaryCards (chartRuns (selectedRows st) (filteredRows st)) = Inr (cmp_summary c)
          \<and> 2 \<le> run_count (cmp_summary c))
   \<and> (\<forall>rs. 2 \<le> length rs \<longrightarrow> (\<exists>s. SummaryCards rs = Inr s))
   \<and> SummaryCards [] = Inl TypeError"
proof (intro conjI allI impI)
  let ?cr = "chartRuns (selectedRows st) (filteredRows st)"
  show "\<exists>v. DashboardPage lc st = Inr v"
  proof (cases "2 \<le> length ?cr")
    case True
    then have "?cr \<noteq> []" by auto
    from ComparisonCharts_nonempty [OF this, of lc "modelMap st"]
    show ?thesis by (auto simp: DashboardPage_def Let_def)
  next
    case False
    then show ?thesis by (auto simp: DashboardPage_def Let_def)
  qed
  fix c assume d: "DashboardPage lc st = Inr (Dashboard (Some c))"
  then have "comparison_rendered (DashboardPage lc st)" by (simp add: comparison_rendered_def)
  then show two: "2 \<le> length ?cr" by (simp add: rendered_iff)
  from d have "ComparisonCharts lc ?cr (modelMap st) = Inr c"
    by (auto simp: DashboardPage_def Let_def split: if_splits sum.splits)
  then show sc: "SummaryCards ?cr = Inr (cmp_summary c)" by (rule ComparisonCharts_Inr)
  from two have "?cr \<noteq> []" by auto
  from SummaryCards_nonempty [OF this] sc two show "2 \<le> run_count (cmp_summary c)" by auto
next
  fix rs :: "RunRow list" assume "2 \<le> length rs"
  then have "rs \<noteq> []" by auto
  from SummaryCards_nonempty [OF this] show "\<exists>s. SummaryCards rs = Inr s" by blast
next
  show "SummaryCards [] = Inl TypeError" by (simp add: SummaryCards_def)
qed

theorem SummaryCards_guarded_witness:
  "\<exists>c. DashboardPage compare_code_units
          (example_page False
             [example_run ''r1'' ''m1'' (Some (1 / 2)) (Some 1200) None None,
              example_run ''r2'' ''m2'' (Some (9 / 10)) None None None]
             []
             [example_run ''r1'' ''m1'' (Some (1 / 2)) (Some 1200) None None,
              example_run ''r2'' ''m2'' (Some (9 / 10)) None None None])
        = Inr (Dashboard (Some c))
      \<and> best (cmp_summary c) = example_run ''r2'' ''m2'' (Some (9 / 10)) None None None
      \<and> fastest (cmp_summary c) = example_run ''r1'' ''m1'' (Some (1 / 2)) (Some 1200) None None
      \<and> avgScore (cmp_summary c) = 7 / 10
      \<and> run_count (cmp_summary c) = 2"
proof -
  let ?r1 = "example_run ''r1'' ''m1'' (Some (1 / 2)) (Some 1200) None None"
  let ?r2 = "example_run ''r2'' ''m2'' (Some (9 / 10)) None None None"
  let ?st = "example_page False [?r1, ?r2] [] [?r1, ?r2]"
  have cr: "chartRuns (selectedRows ?st) (filteredRows ?st) = [?r1, ?r2]"
    by (simp add: chartRuns_def example_page_def)
  have "comparison_rendered (DashboardPage compare_code_units ?st)"
    by (simp only: rendered_iff cr) (simp add: example_page_def)
  then obtain c where c: "DashboardPage compare_code_units ?st = Inr (Dashboard (Some c))"
    by (auto simp: comparison_rendered_def split: sum.splits page_view.splits option.splits)
  with SummaryCards_guarded [of compare_code_units ?st]
  have "SummaryCards (chartRuns (selectedRows ?st) (filteredRows ?st)) = Inr (cmp_summary c)"
    by blast
  then have s: "SummaryCards [?r1, ?r2] = Inr (cmp_summary c)" by (simp only: cr)
  have "SummaryCards [?r1, ?r2] =
          Inr \<lparr> best = ?r2, fastest = ?r1, avgScore = 7 / 10, run_count = 2 \<rparr>"
    by (simp add: SummaryCards_def example_run_def coalesce_def le_or_Infinity_def)
  with s have "cmp_summary c = \<lparr> best = ?r2, fastest = ?r1, avgScore = 7 / 10, run_count = 2 \<rparr>"
    by simp
  with c show ?thesis by (intro exI [of _ c]) simp
qed

section \<open>Column filter\<close>

lemma Set_from_acc:
  "distinct acc \<Longrightarrow>
     distinct (foldl (\<lambda>acc x. if x \<in> set acc then acc else acc @ [x]) acc xs)
     \<and> set (foldl (\<lambda>acc x. if x \<in> set acc then acc else acc @ [x]) acc xs) = set acc \<union> set xs"
  by (induction xs arbitrary: acc) auto

lemma length_Set_from: "length (Set_from xs) = card (set xs)"
proof -
  from Set_from_acc [of "[]" xs]
  have "distinct (Set_from xs)" and "set (Set_from xs) = set xs"
    by (simp_all add: Set_from_def)
  then show ?thesis by (metis distinct_card)
qed

lemma length_facetValues:
  "length (facetValues col) = card (set (map (\<lambda>v. coalesce v []) (facetedValues col)))"
  by (simp only: facetValues_def length_sort length_Set_from)

text \<open>
  C8. The filter control of a column renders nothing exactly when the distinct
  stringified values of the column over its faceted rows number at most one. When it is
  rendered, its first option is \<open>All\<close> with the empty value, and choosing it calls the
  table's \<open>setFilterValue\<close> with \<open>undefined\<close>; with a table that answers this call by
  dropping the column's term, the column filters after the choice are the filters without
  that term.
\<close>

theorem ColumnFilter_suppressed_iff:
  "(ColumnFilter col = None \<longleftrightarrow>
      card (set (map (\<lambda>v. coalesce v []) (facetedValues col))) \<le> 1)
   \<and> (\<forall>sel. ColumnFilter col = Some sel \<longrightarrow> hd (sel_options sel) = ([], utf16 ''All''))
   \<and> ColumnFilter_onChange setFilterValue [] = setFilterValue None
   \<and> ((\<forall>fs. setFilterValue None fs = filter (\<lambda>d. fst d \<noteq> col_id col) fs) \<longrightarrow>
        (\<forall>fs. ColumnFilter_onChange setFilterValue [] fs
                = filter (\<lambda>d. fst d \<noteq> col_id col) (fs :: (jsstring \<times> jsstring) list)))"
proof (intro conjI allI impI)
  show "ColumnFilter col = None \<longleftrightarrow>
      card (set (map (\<lambda>v. coalesce v []) (facetedValues col))) \<le> 1"
    by (simp only: length_facetValues [symmetric]) (simp add: ColumnFilter_def Let_def)
  show "hd (sel_options sel) = ([], utf16 ''All'')" if "ColumnFilter col = Some sel" for sel
    using that by (auto simp: ColumnFilter_def Let_def split: if_splits)
  show on: "ColumnFilter_onChange setFilterValue [] = setFilterValue None"
    by (simp add: ColumnFilter_onChange_def)
  show "ColumnFilter_onChange setFilterValue [] fs = filter (\<lambda>d. fst d \<noteq> col_id col) fs"
    if "\<forall>fs. setFilterValue None fs = filter (\<lambda>d. fst d \<noteq> col_id col) fs" for fs
    using that by (simp add: on)
qed

theorem ColumnFilter_suppressed_iff_witness:
  "ColumnFilter (example_column ''provider'' None [Some ''acme'', None, Some ''acme'']) \<noteq> None
   \<and> ColumnFilter (example_column ''provider'' None [Some ''acme'', Some ''acme'']) = None
   \<and> ColumnFilter_onChange
        (\<lambda>v fs. case v of None \<Rightarrow> filter (\<lambda>d. fst d \<noteq> utf16 ''provider'') fs
                         | Some x \<Rightarrow> Map_set (utf16 ''provider'') x fs)
        [] [(utf16 ''provider'', utf16 ''acme''), (utf16 ''status'', utf16 ''completed'')]
      = [(utf16 ''status'', utf16 ''completed'')]"
proof -
  let ?two = "example_column ''provider'' None [Some ''acme'', None, Some ''acme'']"
  let ?one = "example_column ''provider'' None [Some ''acme'', Some ''acme'']"
  let ?set = "\<lambda>v fs. case v of None \<Rightarrow> filter (\<lambda>d. fst d \<noteq> utf16 ''provider'') fs
                         | Some x \<Rightarrow> Map_set (utf16 ''provider'') x fs"
  let ?fs = "[(utf16 ''provider'', utf16 ''acme''), (utf16 ''status'', utf16 ''completed'')]"
  have "set (map (\<lambda>v. coalesce v []) (facetedValues ?two)) = {utf16 ''acme'', []}"
    by (auto simp: example_column_def coalesce_def)
  moreover have "utf16 ''acme'' \<noteq> []" by (simp add: utf16_def)
  ultimately have c2: "\<not> card (set (map (\<lambda>v. coalesce v []) (facetedValues ?two))) \<le> 1"
    by simp
  have "set (map (\<lambda>v. coalesce v []) (facetedValues ?one)) = {utf16 ''acme''}"
    by (auto simp: example_column_def coalesce_def)
  then have c1: "card (set (map (\<lambda>v. coalesce v []) (facetedValues ?one))) \<le> 1"
    by simp
  from ColumnFilter_suppressed_iff [of ?two] c2 have a: "ColumnFilter ?two \<noteq> None" by blast
  from ColumnFilter_suppressed_iff [of ?one] c1 have b: "ColumnFilter ?one = None" by blast
  have lib: "\<forall>fs. ?set None fs = filter (\<lambda>d. fst d \<noteq> col_id ?one) fs"
    by (simp add: example_column_def)
  from ColumnFilter_suppressed_iff [of ?one ?set] lib
  have "ColumnFilter_onChange ?set [] ?fs = filter (\<lambda>d. fst d \<noteq> col_id ?one) ?fs" by blast
  also have "\<dots> = [(utf16 ''status'', utf16 ''completed'')]"
    by (simp add: example_column_def utf16_def)
  finally have c: "ColumnFilter_onChange ?set [] ?fs = [(utf16 ''status'', utf16 ''completed'')]" .
  from a b c show ?thesis by blast
qed

section \<open>Dataset cache\<close>

lemma step_after_resolution:
  "cached s \<noteq> None \<Longrightarrow> fetches (step s e) = fetches s \<and> cached (step s e) \<noteq> None"
  by (cases e) auto

lemma run_after_resolution:
  "cached s \<noteq> None \<Longrightarrow>
     fetches (run_events s evs) = fetches s \<and> cached (run_events s evs) \<noteq> None"
proof (induction evs arbitrary: s)
  case Nil
  then show ?case by (simp add: run_events_def)
next
  case (Cons e evs)
  from step_after_resolution [OF Cons.prems, of e]
  have f: "fetches (step s e) = fetches s" and c: "cached (step s e) \<noteq> None" by simp_all
  from Cons.IH [OF c] f show ?case by (simp add: run_events_def)
qed

lemma calls_before_resolution:
  "cached s = None \<Longrightarrow>
     fetches (run_events s (replicate n Call)) = fetches s + n
     \<and> cached (run_events s (replicate n Call)) = None"
proof (induction n arbitrary: s)
  case 0
  then show ?case by (simp add: run_events_def)
next
  case (Suc n)
  let ?s' = "step s Call"
  from Suc.prems have c: "cached ?s' = None" and f: "fetches ?s' = fetches s + 1" by simp_all
  from Suc.IH [OF c] f show ?case by (simp add: run_events_def)
qed

lemma length_filter_update:
  "i < length xs \<Longrightarrow>
     length (filter P (xs[i := y])) + (if P (xs ! i) then 1 else 0)
       = length (filter P xs) + (if P y then 1 else 0)"
proof (induction xs arbitrary: i)
  case Nil
  then show ?case by simp
next
  case (Cons x xs)
  then show ?case by (cases i) auto
qed

lemma suspended_update:
  assumes "at_call s i c" "c = AwaitingFetch \<or> c = AwaitingJson"
  shows "suspended (s\<lparr>calls := (calls s)[i := c']\<rparr>) + 1
           = suspended s + (if c' = AwaitingFetch \<or> c' = AwaitingJson then 1 else 0)"
  using assms length_filter_update [of i "calls s" "\<lambda>c. c = AwaitingFetch \<or> c = AwaitingJson" c']
  by (auto simp: suspended_def at_call_def)

lemma step_writes_bounded:
  assumes "cache_writes s + suspended s \<le> fetches s"
  shows "cache_writes (step s e) + suspended (step s e) \<le> fetches (step s e)"
proof (cases e)
  case Call
  with assms show ?thesis by (cases "cached s") (simp_all add: suspended_def)
next
  case (FetchResolves i)
  show ?thesis
  proof (cases "at_call s i AwaitingFetch")
    case True
    from suspended_update [OF True, of AwaitingJson] assms FetchResolves True
    show ?thesis by simp
  next
    case False
    with assms FetchResolves show ?thesis by simp
  qed
next
  case (FetchRejects i)
  show ?thesis
  proof (cases "at_call s i AwaitingFetch")
    case True
    from suspended_update [OF True, of Rejected] assms FetchRejects True
    show ?thesis by simp
  next
    case False
    with assms FetchRejects show ?thesis by simp
  qed
next
  case (JsonResolves i d)
  show ?thesis
  proof (cases "at_call s i AwaitingJson")
    case True
    from suspended_update [OF True, of "Returned d"] assms JsonResolves True
    show ?thesis by (simp add: suspended_def)
  next
    case False
    with assms JsonResolves show ?thesis by simp
  qed
next
  case (JsonRejects i)
  show ?thesis
  proof (cases "at_call s i AwaitingJson")
    case True
    from suspended_update [OF True, of Rejected] assms JsonRejects True
    show ?thesis by simp
  next
    case False
    with assms JsonRejects show ?thesis by simp
  qed
qed

lemma run_writes_bounded:
  "cache_writes s + suspended s \<le> fetches s \<Longrightarrow>
     cache_writes (run_events s evs) + suspended (run_events s evs) \<le> fetches (run_events s evs)"
proof (induction evs arbitrary: s)
  case Nil
  then show ?case by (simp add: run_events_def)
next
  case (Cons e evs)
  from Cons.IH [OF step_writes_bounded [OF Cons.prems, of e]]
  show ?case by (simp add: run_events_def)
qed

lemma run_events_Cons: "run_events s (e # evs) = run_events (step s e) evs"
  by (simp add: run_events_def)

lemma run_events_Nil: "run_events s [] = s"
  by (simp add: run_events_def)

lemma run_events_append: "run_events s (xs @ ys) = run_events (run_events s xs) ys"
  by (simp add: run_events_def)

lemma calls_before_resolution_state:
  "cached s = None \<Longrightarrow>
     run_events s (replicate n Call)
       = s\<lparr>calls := calls s @ replicate n AwaitingFetch, fetches := fetches s + n\<rparr>"
proof (induction n arbitrary: s)
  case 0
  then show ?case by (simp add: run_events_def)
next
  case (Suc n)
  let ?s' = "step s Call"
  from Suc.prems have c: "cached ?s' = None" by simp
  have "run_events s (replicate (Suc n) Call) = run_events ?s' (replicate n Call)"
    by (simp only: replicate_Suc run_events_Cons)
  also have "\<dots> = ?s'\<lparr>calls := calls ?s' @ replicate n AwaitingFetch, fetches := fetches ?s' + n\<rparr>"
    by (rule Suc.IH [OF c])
  also have "\<dots> = s\<lparr>calls := calls s @ replicate (Suc n) AwaitingFetch,
                       fetches := fetches s + Suc n\<rparr>"
    using Suc.prems by simp
  finally show ?case .
qed

lemma step_written:
  "(cached s \<noteq> None \<longleftrightarrow> 0 < cache_writes s) \<Longrightarrow>
     (cached (step s e) \<noteq> None \<longleftrightarrow> 0 < cache_writes (step s e))"
  by (cases e) (auto split: option.splits)

lemma run_written:
  "(cached s \<noteq> None \<longleftrightarrow> 0 < cache_writes s) \<Longrightarrow>
     (cached (run_events s evs) \<noteq> None \<longleftrightarrow> 0 < cache_writes (run_events s evs))"
proof (induction evs arbitrary: s)
  case Nil
  then show ?case by (simp add: run_events_def)
next
  case (Cons e evs)
  from Cons.IH [OF step_written [OF Cons.prems, of e]]
  show ?case by (simp only: run_events_Cons)
qed

lemma json_resolves:
  assumes "at_call s i AwaitingJson"
  shows "cached (step s (JsonResolves i d)) = Some d"
    and "cache_writes (step s (JsonResolves i d)) = cache_writes s + 1"
    and "calls (step s (JsonResolves i d)) = (calls s)[i := Returned d]"
    and "fetches (step s (JsonResolves i d)) = fetches s"
  using assms by simp_all

lemma first_completion:
  assumes "i < n"
  shows "run_events (module_loaded :: 'd api_state)
           (replicate n Call @ [FetchResolves i, JsonResolves i d])
         = \<lparr> cached = Some d, calls = (replicate n AwaitingFetch)[i := Returned d],
             fetches = n, cache_writes = 1 \<rparr>"
proof -
  let ?S = "run_events (module_loaded :: 'd api_state) (replicate n Call)"
  have "cached (module_loaded :: 'd api_state) = None" by (simp add: module_loaded_def)
  from calls_before_resolution_state [OF this, of n]
  have S: "?S = \<lparr> cached = None, calls = replicate n AwaitingFetch, fetches = n,
                  cache_writes = 0 \<rparr>"
    by (simp add: module_loaded_def)
  have "run_events (module_loaded :: 'd api_state)
          (replicate n Call @ [FetchResolves i, JsonResolves i d])
        = step (step ?S (FetchResolves i)) (JsonResolves i d)"
    by (simp only: run_events_append run_events_Cons run_events_Nil)
  also have "\<dots> = \<lparr> cached = Some d, calls = (replicate n AwaitingFetch)[i := Returned d],
                      fetches = n, cache_writes = 1 \<rparr>"
    using assms by (simp add: S at_call_def)
  finally show ?thesis .
qed

text \<open>
  C5, as the code has it. The load is memoized on its result. A call that finds the
  cache written returns the cached dataset at once and does nothing else; a call that
  finds it empty starts a fetch of its own, so \<open>n\<close> calls made before the first
  completion make \<open>n\<close> fetches. When the body of a fetch arrives the call writes the
  cache and returns the dataset, and from then on no sequence of calls and completions
  starts another fetch: after \<open>n\<close> calls and the completion of any one of them the
  number of fetches stays \<open>n\<close> for ever. The cache has been written exactly when it
  is not empty, and never more often than a fetch was started.
\<close>

theorem loadData_memoized_after_resolution:
  "(cached s \<noteq> None \<longrightarrow>
      fetches (run_events s evs) = fetches s \<and> cached (run_events s evs) \<noteq> None)
   \<and> (\<forall>d. cached s = Some d \<longrightarrow> step s Call = s\<lparr>calls := calls s @ [Returned d]\<rparr>)
   \<and> (cached s = None \<longrightarrow>
        step s Call = s\<lparr>calls := calls s @ [AwaitingFetch], fetches := fetches s + 1\<rparr>)
   \<and> (\<forall>i d. at_call s i AwaitingJson \<longrightarrow>
        cached (step s (JsonResolves i d)) = Some d
        \<and> cache_writes (step s (JsonResolves i d)) = cache_writes s + 1
        \<and> calls (step s (JsonResolves i d)) = (calls s)[i := Returned d]
        \<and> fetches (run_events (step s (JsonResolves i d)) evs) = fetches s)
   \<and> fetches (run_events (module_loaded :: 'd api_state) (replicate n Call)) = n
   \<and> (\<forall>i d. i < n \<longrightarrow>
        fetches (run_events (module_loaded :: 'd api_state)
           (replicate n Call @ FetchResolves i # JsonResolves i d # evs)) = n
        \<and> cached (run_events (module_loaded :: 'd api_state)
           (replicate n Call @ FetchResolves i # JsonResolves i d # evs)) \<noteq> None)
   \<and> cache_writes (run_events (module_loaded :: 'd api_state) evs)
        \<le> fetches (run_events (module_loaded :: 'd api_state) evs)
   \<and> (cached (run_events (module_loaded :: 'd api_state) evs) \<noteq> None
        \<longleftrightarrow> 0 < cache_writes (run_events (module_loaded :: 'd api_state) evs))"
  for s :: "'d api_state"
proof (intro conjI allI impI)
  show "fetches (run_events s evs) = fetches s" and "cached (run_events s evs) \<noteq> None"
    if "cached s \<noteq> None"
    using run_after_resolution [OF that, of evs] by simp_all
  show "step s Call = s\<lparr>calls := calls s @ [Returned d]\<rparr>" if "cached s = Some d" for d
    using that by simp
  show "step s Call = s\<lparr>calls := calls s @ [AwaitingFetch], fetches := fetches s + 1\<rparr>"
    if "cached s = None"
    using that by simp
next
  fix i d assume j: "at_call s i AwaitingJson"
  show "cached (step s (JsonResolves i d)) = Some d"
    and "cache_writes (step s (JsonResolves i d)) = cache_writes s + 1"
    and "calls (step s (JsonResolves i d)) = (calls s)[i := Returned d]"
    by (rule json_resolves [OF j])+
  from json_resolves(1) [OF j, of d] have "cached (step s (JsonResolves i d)) \<noteq> None" by simp
  from run_after_resolution [OF this, of evs] json_resolves(4) [OF j, of d]
  show "fetches (run_events (step s (JsonResolves i d)) evs) = fetches s" by simp
next
  have "cached (module_loaded :: 'd api_state) = None" by (simp add: module_loaded_def)
  from calls_before_resolution [OF this, of n]
  show "fetches (run_events (module_loaded :: 'd api_state) (replicate n Call)) = n"
    by (simp add: module_loaded_def)
next
  fix i and d :: 'd assume i: "i < n"
  let ?done = "run_events (module_loaded :: 'd api_state)
                 (replicate n Call @ [FetchResolves i, JsonResolves i d])"
  have split: "run_events (module_loaded :: 'd api_state)
                 (replicate n Call @ FetchResolves i # JsonResolves i d # evs)
               = run_events ?done evs"
    by (simp only: run_events_append run_events_Cons run_events_Nil)
  from first_completion [OF i, of d]
  have written: "cached ?done \<noteq> None" and started: "fetches ?done = n" by simp_all
  from run_after_resolution [OF written, of evs] started
  have "fetches (run_events ?done evs) = n" and "cached (run_events ?done evs) \<noteq> None"
    by simp_all
  then show "fetches (run_events (module_loaded :: 'd api_state)
           (replicate n Call @ FetchResolves i # JsonResolves i d # evs)) = n"
    and "cached (run_events (module_loaded :: 'd api_state)
           (replicate n Call @ FetchResolves i # JsonResolves i d # evs)) \<noteq> None"
    unfolding split by simp_all
next
  have "cache_writes (module_loaded :: 'd api_state) + suspended (module_loaded :: 'd api_state)
          \<le> fetches (module_loaded :: 'd api_state)"
    by (simp add: module_loaded_def suspended_def)
  from run_writes_bounded [OF this, of evs]
  show "cache_writes (run_events (module_loaded :: 'd api_state) evs)
          \<le> fetches (run_events (module_loaded :: 'd api_state) evs)"
    by simp
next
  have "cached (module_loaded :: 'd api_state) \<noteq> None
          \<longleftrightarrow> 0 < cache_writes (module_loaded :: 'd api_state)"
    by (simp add: module_loaded_def)
  from run_written [OF this, of evs]
  show "cached (run_events (module_loaded :: 'd api_state) evs) \<noteq> None
          \<longleftrightarrow> 0 < cache_writes (run_events (module_loaded :: 'd api_state) evs)" .
qed

text \<open>
  C5 as stated fails for two calls made before the first one completes: each finds the
  cache empty, each fetches, and each writes the cache when its body arrives.
\<close>

theorem loadData_duplicate_fetch_counterexample:
  "fetches (run_events module_loaded
      [Call, Call, FetchResolves 0, FetchResolves 1, JsonResolves 0 (), JsonResolves 1 ()]) = 2
   \<and> cache_writes (run_events module_loaded
      [Call, Call, FetchResolves 0, FetchResolves 1, JsonResolves 0 (), JsonResolves 1 ()]) = 2"
  by (simp add: run_events_def module_loaded_def at_call_def)

theorem loadData_memoized_after_resolution_witness:
  "fetches (run_events module_loaded
      [Call, FetchResolves 0, JsonResolves 0 (), Call, Call]) = 1
   \<and> cached (run_events module_loaded
      [Call, FetchResolves 0, JsonResolves 0 (), Call, Call]) \<noteq> None
   \<and> fetches (run_events module_loaded
      [Call, Call, Call, FetchResolves 1, JsonResolves 1 (), Call]) = 3"
proof -
  have r1: "replicate 1 (Call :: unit event) = [Call]" by simp
  have r3: "replicate 3 (Call :: unit event) = [Call, Call, Call]" by code_simp
  have "\<forall>i d. i < 1 \<longrightarrow>
          fetches (run_events (module_loaded :: unit api_state)
             (replicate 1 Call @ FetchResolves i # JsonResolves i d # [Call, Call])) = 1
          \<and> cached (run_events (module_loaded :: unit api_state)
             (replicate 1 Call @ FetchResolves i # JsonResolves i d # [Call, Call])) \<noteq> None"
    by (rule loadData_memoized_after_resolution
          [where n = 1 and evs = "[Call, Call]", THEN conjunct2, THEN conjunct2, THEN conjunct2,
           THEN conjunct2, THEN conjunct2, THEN conjunct1])
  then have "(0::nat) < 1 \<longrightarrow>
          fetches (run_events (module_loaded :: unit api_state)
             (replicate 1 Call @ FetchResolves 0 # JsonResolves 0 () # [Call, Call])) = 1
          \<and> cached (run_events (module_loaded :: unit api_state)
             (replicate 1 Call @ FetchResolves 0 # JsonResolves 0 () # [Call, Call])) \<noteq> None"
    by (elim allE)
  then have a: "fetches (run_events module_loaded
                  [Call, FetchResolves 0, JsonResolves 0 (), Call, Call]) = 1
                \<and> cached (run_events module_loaded
                  [Call, FetchResolves 0, JsonResolves 0 (), Call, Call]) \<noteq> None"
    by (simp only: r1 append.simps) simp
  have "\<forall>i d. i < 3 \<longrightarrow>
          fetches (run_events (module_loaded :: unit api_state)
             (replicate 3 Call @ FetchResolves i # JsonResolves i d # [Call])) = 3
          \<and> cached (run_events (module_loaded :: unit api_state)
             (replicate 3 Call @ FetchResolves i # JsonResolves i d # [Call])) \<noteq> None"
    by (rule loadData_memoized_after_resolution
          [where n = 3 and evs = "[Call]", THEN conjunct2, THEN conjunct2, THEN conjunct2,
           THEN conjunct2, THEN conjunct2, THEN conjunct1])
  then have "(1::nat) < 3 \<longrightarrow>
          fetches (run_events (module_loaded :: unit api_state)
             (replicate 3 Call @ FetchResolves 1 # JsonResolves 1 () # [Call])) = 3
          \<and> cached (run_events (module_loaded :: unit api_state)
             (replicate 3 Call @ FetchResolves 1 # JsonResolves 1 () # [Call])) \<noteq> None"
    by (elim allE)
  then have b: "fetches (run_events module_loaded
                  [Call, Call, Call, FetchResolves 1, JsonResolves 1 (), Call]) = 3"
    by (simp only: r3 append.simps)
  from a b show ?thesis by (intro conjI) (erule conjunct1, erule conjunct2, assumption)
qed

section \<open>Score by release date\<close>

text \<open>
  C4. The chart is to hold, for each model id among the qualifying runs, the run with the
  highest average score. The loop stores the rounded percentage (0 to 100) in the map
  and compares the next run's average score, a fraction between 0 and 1, against that
  stored percentage, so a later and better run of the same model does not replace the
  first one: for two runs of model \<open>m1\<close> with scores 0.5 and then 0.9 the chart plots 50,
  not 90.
\<close>

theorem releaseDate_chart_keeps_first_run:
  "avg_score (example_run ''r2'' ''m1'' (Some (9 / 10)) None None None) = Some (9 / 10)
   \<and> map_option (map (\<lambda>p. (rp_name p, rp_score p)))
       (PerformanceByReleaseDateChart compare_code_units
          [example_run ''r1'' ''m1'' (Some (1 / 2)) None None None,
           example_run ''r2'' ''m1'' (Some (9 / 10)) None None None,
           example_run ''r3'' ''m2'' (Some (7 / 10)) None None None]
          (buildIndex [example_model ''m1'' ''M one'' (Some ''2024-03-01'') None,
                       example_model ''m2'' ''M two'' (Some ''2024-09-01'') None]))
     = Some [(utf16 ''M one'', 50), (utf16 ''M two'', 70)]"
  by code_simp

end
